theory Spec2Isabelle
  imports Main
begin

section \<open>Asset valuation against the price cache (tools/assetValidation.ts)\<close>

text \<open>
  Numbers. Quantities, prices, balances, collateral and timestamps (milliseconds) are
  \<open>int\<close>, with exact addition and multiplication. The code computes with JavaScript
  doubles and MongoDB stores 32-bit and 64-bit integers and doubles; all of these agree
  with exact integer arithmetic as long as the operands and the result are integers of
  magnitude at most \<open>Number.MAX_SAFE_INTEGER\<close>, and only there. Beyond that range the
  code rounds (in doubles \<open>(3 + 2^53) - 2^53\<close> is 4), and the model does not follow
  it. The theorems that say what a valuation or a balance is after arithmetic on
  quantities of the request carry the range as a hypothesis (\<open>withinSafeRange\<close>,
  \<open>maxSafeInteger\<close>). Prices are taken to be integers; the result \<open>NaN\<close> is modelled by
  a flag where the code can produce it from a request.

  A value of the request's \<open>assets\<close> object is either a number for which
  \<open>Number.isInteger\<close> holds, or anything else. A request object is a list of key/value
  pairs in the order \<open>for (key in ...)\<close> visits them.
\<close>

definition maxSafeInteger :: int where
  "maxSafeInteger = 9007199254740991"

datatype quantity = Integer int | NotInteger

fun intval :: "quantity \<Rightarrow> int" where
  "intval (Integer n) = n"
| "intval NotInteger = 0"

type_synonym assetsToCheck = "(string \<times> quantity) list"

text \<open>An entry of the process-wide price table: \<open>{ value, updatedAt }\<close>.\<close>

record priceEntry =
  unitValue :: int
  updatedAt :: int

type_synonym assetTable = "string \<rightharpoonup> priceEntry"

text \<open>The two application settings \<open>app.get("assets")\<close> and \<open>app.get("assetsCheckedAt")\<close>.\<close>

record app =
  assets :: assetTable
  assetsCheckedAt :: int

text \<open>The Redis hash \<open>assets\<close> (symbol to price), the external price source.\<close>

type_synonym redisAssets = "(string \<times> int) list"

datatype redisCall = HGETALL | HMGET "string list"

definition thirtyMinutes :: int where
  "thirtyMinutes = 1000 * 60 * 30"

text \<open>
  The table built from a whole-hash load: every key of the reply gets the price and the
  current time.
\<close>

definition assetValueObject :: "int \<Rightarrow> redisAssets \<Rightarrow> assetTable" where
  "assetValueObject currentDateTime reply =
     map_of (map (\<lambda>(k, v). (k, \<lparr>unitValue = v, updatedAt = currentDateTime\<rparr>)) reply)"

text \<open>
  The price table is a plain object, so \<open>key in globalAssetObject\<close> also holds for the
  property names it inherits from \<open>Object.prototype\<close>. For such a key that is not a
  symbol of the table, \<open>globalAssetObject[key]\<close> is a function or the prototype
  object: its \<open>updatedAt\<close> and \<open>value\<close> are \<open>undefined\<close>, the staleness test is
  false and the total becomes \<open>NaN\<close>. Such a key never reaches the test
  \<open>key in assets\<close> on the reply of \<open>HGETALL\<close>.
\<close>

definition inheritedKeys :: "string list" where
  "inheritedKeys =
     [''constructor'', ''__defineGetter__'', ''__defineSetter__'', ''hasOwnProperty'',
      ''__lookupGetter__'', ''__lookupSetter__'', ''isPrototypeOf'', ''propertyIsEnumerable'',
      ''toString'', ''valueOf'', ''__proto__'', ''toLocaleString'']"

text \<open>
  The mutable variables of one call of \<open>validateAssets\<close>. \<open>appNow\<close> is what the
  application settings hold at this point; \<open>replaced\<close> records that \<open>app.set("assets", ...)\<close>
  has run, after which the local \<open>globalAssetObject\<close> is no longer the object the
  application holds. \<open>calls\<close> logs the commands sent to Redis. \<open>totalNaN\<close> records
  that \<open>totalCollateral\<close> has become \<open>NaN\<close>, which no later addition undoes.
\<close>

record vstate =
  totalCollateral :: int
  totalNaN :: bool
  outdatedAssets :: "string list"
  appNow :: app
  replaced :: bool
  calls :: "redisCall list"

text \<open>
  The first loop. \<open>Inl\<close> is an early \<open>return -1\<close> (the effects so far stay), \<open>Inr\<close> is
  the loop running to its end. \<open>g\<close> and \<open>gAt\<close> are the constants \<open>globalAssetObject\<close>
  and \<open>globalAssetsUpdatedAt\<close> read once before the loop.
\<close>

fun checkLoop ::
  "int \<Rightarrow> redisAssets \<Rightarrow> assetTable \<Rightarrow> int \<Rightarrow> bool \<Rightarrow> assetsToCheck \<Rightarrow> vstate \<Rightarrow> vstate + vstate"
where
  "checkLoop now redis g gAt steloAllowed [] s = Inr s"
| "checkLoop now redis g gAt steloAllowed ((key, q) # rest) s =
     (case q of
        NotInteger \<Rightarrow> Inl s
      | Integer n \<Rightarrow>
          if n \<ge> 1 then
            (case g key of
               Some e \<Rightarrow>
                 if updatedAt e < now - thirtyMinutes
                 then checkLoop now redis g gAt steloAllowed rest
                        (s\<lparr>outdatedAssets := outdatedAssets s @ [key]\<rparr>)
                 else checkLoop now redis g gAt steloAllowed rest
                        (s\<lparr>totalCollateral := totalCollateral s + unitValue e * n\<rparr>)
             | None \<Rightarrow>
                 if key \<in> set inheritedKeys then
                   checkLoop now redis g gAt steloAllowed rest (s\<lparr>totalNaN := True\<rparr>)
                 else if key = ''stelo'' then
                   (if \<not> steloAllowed then Inl s
                    else checkLoop now redis g gAt steloAllowed rest s)
                 else if gAt < now - thirtyMinutes * 2 then
                   (let s1 = s\<lparr>calls := calls s @ [HGETALL]\<rparr> in
                    if redis = [] then Inl s1
                    else
                      (let s2 = s1\<lparr>appNow := \<lparr>assets = assetValueObject now redis,
                                                assetsCheckedAt = now\<rparr>,
                                     replaced := True\<rparr>
                       in case map_of redis key of
                            Some v \<Rightarrow> checkLoop now redis g gAt steloAllowed rest
                                        (s2\<lparr>totalCollateral := totalCollateral s2 + v * n\<rparr>)
                          | None \<Rightarrow> Inl s2))
                 else Inl s)
          else Inl s)"

text \<open>\<open>assetsToCheck[key]\<close> for a key the object has.\<close>

definition quantityOf :: "assetsToCheck \<Rightarrow> string \<Rightarrow> int" where
  "quantityOf atc key = (case map_of atc key of Some q \<Rightarrow> intval q | None \<Rightarrow> 0)"

text \<open>
  The second loop, over the reply of \<open>HMGET\<close> paired with the stale keys: a \<open>null\<close>
  reply deletes the entry from the local table and returns -1 (\<open>None\<close> here), any other
  reply replaces the entry and adds to the total.
\<close>

fun refreshLoop ::
  "int \<Rightarrow> assetsToCheck \<Rightarrow> (string \<times> int option) list \<Rightarrow> assetTable \<Rightarrow> int \<Rightarrow> assetTable \<times> int option"
where
  "refreshLoop now atc [] g acc = (g, Some acc)"
| "refreshLoop now atc ((key, reply) # rest) g acc =
     (case reply of
        None \<Rightarrow> (g(key := None), None)
      | Some v \<Rightarrow>
          refreshLoop now atc rest
            (g(key \<mapsto> \<lparr>unitValue = v, updatedAt = now\<rparr>))
            (acc + v * quantityOf atc key))"

text \<open>
  What a call leaves behind. \<open>returned\<close> is the number returned; when the code returns
  \<open>NaN\<close>, \<open>returnedNaN\<close> is set and \<open>returned\<close> is 0, so that the callers' test
  \<open>returned < 0\<close> is false as \<open>NaN < 0\<close> is.
\<close>

record validation =
  returned :: int
  returnedNaN :: bool
  appAfter :: app
  redisCalls :: "redisCall list"

definition validateAssets ::
  "int \<Rightarrow> redisAssets \<Rightarrow> app \<Rightarrow> assetsToCheck \<Rightarrow> bool \<Rightarrow> validation"
where
  "validateAssets now redis a atc steloAllowed =
     (case checkLoop now redis (assets a) (assetsCheckedAt a) steloAllowed atc
             \<lparr>totalCollateral = 0, totalNaN = False, outdatedAssets = [], appNow = a,
              replaced = False, calls = []\<rparr> of
        Inl s \<Rightarrow> \<lparr>returned = - 1, returnedNaN = False, appAfter = appNow s,
                  redisCalls = calls s\<rparr>
      | Inr s \<Rightarrow>
          if outdatedAssets s \<noteq> [] then
            (let updatedAssets = map (\<lambda>k. (k, map_of redis k)) (outdatedAssets s);
                 (g', r) = refreshLoop now atc updatedAssets (assets a) (totalCollateral s);
                 a' = (if replaced s then appNow s else (appNow s)\<lparr>assets := g'\<rparr>)
             in \<lparr>returned = (case r of None \<Rightarrow> - 1
                             | Some t \<Rightarrow> if totalNaN s then 0 else t),
                 returnedNaN = (r \<noteq> None \<and> totalNaN s),
                 appAfter = a',
                 redisCalls = calls s @ [HMGET (outdatedAssets s)]\<rparr>)
          else \<lparr>returned = (if totalNaN s then 0 else totalCollateral s),
                returnedNaN = totalNaN s, appAfter = appNow s, redisCalls = calls s\<rparr>)"



section \<open>Documents, collections and atomic units\<close>

text \<open>
  A collection is the list of its documents in natural order; a filter is a predicate on a
  document. \<open>findOne\<close> is \<^const>\<open>find\<close>: the first document that matches.
  \<open>updateOne\<close> and \<open>findOneAndUpdate\<close> change the first match and nothing else,
  \<open>findOneAndDelete\<close> removes it.
\<close>

fun updateFirst :: "('a \<Rightarrow> bool) \<Rightarrow> ('a \<Rightarrow> 'a) \<Rightarrow> 'a list \<Rightarrow> 'a list" where
  "updateFirst P f [] = []"
| "updateFirst P f (x # xs) = (if P x then f x # xs else x # updateFirst P f xs)"

fun deleteFirst :: "('a \<Rightarrow> bool) \<Rightarrow> 'a list \<Rightarrow> 'a list" where
  "deleteFirst P [] = []"
| "deleteFirst P (x # xs) = (if P x then xs else x # deleteFirst P xs)"

text \<open>A fresh \<open>ObjectId\<close>: any identifier no document of the collection has.\<close>

definition freshOid :: "nat list \<Rightarrow> nat" where
  "freshOid ids = Suc (fold max ids 0)"

text \<open>
  \<open>session.withTransaction\<close>: the callback works on the collections and either reaches
  its end (\<open>Some\<close> of the new collections, committed) or calls \<open>abortTransaction\<close> and
  returns (\<open>None\<close>: every write of the callback is discarded). The flags the callback
  sets in the enclosing scope survive either way.
\<close>

definition withTransaction :: "'d \<Rightarrow> 'f \<times> 'd option \<Rightarrow> 'f \<times> 'd" where
  "withTransaction d r = (case r of (f, None) \<Rightarrow> (f, d) | (f, Some d') \<Rightarrow> (f, d'))"

text \<open>
  The \<open>assets\<close> sub-document of a wallet or a warehouse: a field per symbol, absent
  until an \<open>$inc\<close> creates it. \<open>$inc\<close> on an absent field sets it to the increment;
  a \<open>$gte\<close> condition on an absent field does not match.
\<close>

type_synonym assetMap = "string \<rightharpoonup> int"

definition incAsset :: "string \<Rightarrow> int \<Rightarrow> assetMap \<Rightarrow> assetMap" where
  "incAsset k d m = m(k \<mapsto> (case m k of None \<Rightarrow> d | Some v \<Rightarrow> v + d))"

fun incAssets :: "(string \<times> int) list \<Rightarrow> assetMap \<Rightarrow> assetMap" where
  "incAssets [] m = m"
| "incAssets ((k, d) # rest) m = incAssets rest (incAsset k d m)"

definition gteAssets :: "(string \<times> int) list \<Rightarrow> assetMap \<Rightarrow> bool" where
  "gteAssets conds m = list_all (\<lambda>(k, q). case m k of None \<Rightarrow> False | Some v \<Rightarrow> q \<le> v) conds"

text \<open>The quantity an account holds of a symbol: an absent field is no holding.\<close>

definition balance :: "assetMap \<Rightarrow> string \<Rightarrow> int" where
  "balance m k = (case m k of None \<Rightarrow> 0 | Some v \<Rightarrow> v)"

text \<open>The numbers of a request's \<open>assets\<close> object, and their negations.\<close>

definition amounts :: "assetsToCheck \<Rightarrow> (string \<times> int) list" where
  "amounts atc = map (\<lambda>(k, q). (k, intval q)) atc"

definition negated :: "(string \<times> int) list \<Rightarrow> (string \<times> int) list" where
  "negated xs = map (\<lambda>(k, d). (k, - d)) xs"

record wallet =
  walletOid :: nat
  username :: "string option"
  address :: "string option"
  webhook :: "string option"
  walletAssets :: assetMap
  walletCollateralAvailable :: "int option"

record warehouse =
  warehouseOid :: nat
  warehouseName :: string
  ownerId :: nat
  workers :: "nat list"
  collateral :: int
  collateralAvailable :: int
  warehouseAssets :: assetMap

datatype transferStatus = Pending | Sent

record transfer =
  transferOid :: nat
  status :: transferStatus
  collateralUsed :: int
  receivingWarehouse :: nat
  sendingWarehouse :: nat
  transferAssets :: "(string \<times> int) list"

record warehouseAccount =
  accountOid :: nat
  assignedWarehouses :: "nat list"

record db =
  wallets :: "wallet list"
  warehouses :: "warehouse list"
  transfers :: "transfer list"
  warehouseAccounts :: "warehouseAccount list"

record server =
  appState :: app
  database :: db

text \<open>
  An update document \<open>{ $inc: { collateralAvailable: c, "assets.k": d, ... } }\<close>. Applied
  to a warehouse it changes the warehouse's \<open>collateralAvailable\<close>; applied to a wallet,
  which has no such field, \<open>$inc\<close> creates one.
\<close>

record queryUpdate =
  incCollateralAvailable :: "int option"
  incAssetsBy :: "(string \<times> int) list"

definition applyToWarehouse :: "queryUpdate \<Rightarrow> warehouse \<Rightarrow> warehouse" where
  "applyToWarehouse u w =
     w\<lparr>collateralAvailable :=
          (case incCollateralAvailable u of None \<Rightarrow> collateralAvailable w
           | Some c \<Rightarrow> collateralAvailable w + c),
       warehouseAssets := incAssets (incAssetsBy u) (warehouseAssets w)\<rparr>"

definition applyToWallet :: "queryUpdate \<Rightarrow> wallet \<Rightarrow> wallet" where
  "applyToWallet u w =
     w\<lparr>walletCollateralAvailable :=
          (case incCollateralAvailable u of None \<Rightarrow> walletCollateralAvailable w
           | Some c \<Rightarrow> Some (case walletCollateralAvailable w of None \<Rightarrow> c | Some v \<Rightarrow> v + c)),
       walletAssets := incAssets (incAssetsBy u) (walletAssets w)\<rparr>"

text \<open>
  What a handler reads from outside the database: the clock, the Redis hash of prices and
  the outcome of \<open>axios.post\<close> to a webhook URL. \<open>axios\<close> rejects on a status outside
  2xx, on a transport error and on the timeout. The lists of recent transactions that the
  handlers push to Redis and the events they emit on the socket come after the transaction
  and are never read back by a handler modelled here; they are left out.
\<close>

datatype axiosOutcome = Resolved | ResolvedFalsy | NonSuccessStatus | TransportError | TimedOut

record env =
  dateNow :: int
  priceSource :: redisAssets
  axiosPost :: "string \<Rightarrow> axiosOutcome"

text \<open>
  The session of the caller. On the warehouse and transfer routes \<open>isLoggedIn(true, true)\<close>
  has checked that \<open>warehouseAccountId\<close> is set.
\<close>

record session =
  walletId :: nat
  warehouseAccountId :: nat

text \<open>
  The answers of the handlers, by their code. \<open>OutsideModel\<close> is no answer of the server:
  it marks a request on which the model stops because the code goes on with a value the
  model has no number for (\<open>undefined\<close>, \<open>NaN\<close>). The warehouse routes hand a valuation
  of \<open>NaN\<close>, which passes the test \<open>validAssetsResult < 0\<close> and every later comparison,
  to MongoDB as an increment of \<open>collateralAvailable\<close>; what the database holds after
  that the model does not say. The peer transaction only tests the valuation against 0
  and is followed through.
\<close>

datatype response =
    Success
  | G0000 | W0001 | W0002 | W0003 | W0004
  | H0000 | H0001 | A0011 | A0012
  | T0001 | T0002 | S0000 | S0001 | U0000 | U0001
  | OutsideModel

section \<open>Peer transaction (POST /wallet/transactions)\<close>

record txRequest =
  recipient :: string
  txAssets :: assetsToCheck

definition toLowerCase :: "string \<Rightarrow> string" where
  "toLowerCase str =
     map (\<lambda>c. let n = (of_char c :: nat) in if 65 \<le> n \<and> n \<le> 90 then char_of (n + 32) else c) str"

definition recipientFilter :: "string \<Rightarrow> wallet \<Rightarrow> bool" where
  "recipientFilter r w =
     (case r of
        c # rest \<Rightarrow>
          if c = CHR ''#'' then address w = Some (toLowerCase rest) else username w = Some r
      | [] \<Rightarrow> username w = Some r)"

record txFlags =
  hasFunds :: bool
  recipientFound :: bool
  webhookFailed :: bool

definition senderFilter :: "nat \<Rightarrow> (string \<times> int) list \<Rightarrow> wallet \<Rightarrow> bool" where
  "senderFilter wid conds w = (walletOid w = wid \<and> gteAssets conds (walletAssets w))"

text \<open>The callback passed to \<open>withTransaction\<close>.\<close>

definition transactionCallback ::
  "env \<Rightarrow> session \<Rightarrow> txRequest \<Rightarrow> wallet list \<Rightarrow> txFlags \<times> wallet list option"
where
  "transactionCallback e s r ws =
     (let flags = \<lparr>hasFunds = True, recipientFound = True, webhookFailed = False\<rparr>;
          queryFilter = recipientFilter (recipient r);
          update = \<lparr>incCollateralAvailable = None, incAssetsBy = amounts (txAssets r)\<rparr>
      in case find queryFilter ws of
           None \<Rightarrow> (flags\<lparr>recipientFound := False\<rparr>, None)
         | Some recipientResult \<Rightarrow>
             (let ws1 = updateFirst queryFilter (applyToWallet update) ws;
                  failed =
                    (case webhook recipientResult of
                       None \<Rightarrow> False
                     | Some url \<Rightarrow> url \<noteq> [] \<and> axiosPost e url \<noteq> Resolved)
              in if failed then (flags\<lparr>webhookFailed := True\<rparr>, None)
                 else
                   (let f = senderFilter (walletId s) (amounts (txAssets r));
                        decrement = \<lparr>incCollateralAvailable = None,
                                     incAssetsBy = negated (amounts (txAssets r))\<rparr>
                    in if find f ws1 = None then (flags\<lparr>hasFunds := False\<rparr>, None)
                       else (flags, Some (updateFirst f (applyToWallet decrement) ws1)))))"

text \<open>The chain of \<open>if\<close>s after the transaction that picks the response.\<close>

definition transactionResponse :: "txFlags \<Rightarrow> response" where
  "transactionResponse flags =
     (if \<not> hasFunds flags then W0002
      else if \<not> recipientFound flags then W0003
      else if webhookFailed flags then W0004
      else Success)"

definition postTransaction :: "env \<Rightarrow> session \<Rightarrow> txRequest \<Rightarrow> server \<Rightarrow> response \<times> server" where
  "postTransaction e s r srv =
     (if txAssets r = [] then (G0000, srv)
      else
        (let v = validateAssets (dateNow e) (priceSource e) (appState srv) (txAssets r) True;
             srv1 = srv\<lparr>appState := appAfter v\<rparr>
         in if returned v < 0 then (G0000, srv1)
            else
              (let d = database srv1;
                   (flags, ws) = withTransaction (wallets d) (transactionCallback e s r (wallets d))
               in (transactionResponse flags, srv1\<lparr>database := d\<lparr>wallets := ws\<rparr>\<rparr>))))"

section \<open>Warehouse routes: collateral, deposit, withdrawal\<close>

text \<open>
  The middleware \<open>assignedToWarehouse(isOwner)\<close>: it finds the warehouse of the URL to
  which the caller is assigned and leaves it in \<open>req.warehouse\<close>, or answers 403.
\<close>

definition assignedQuery :: "bool \<Rightarrow> nat \<Rightarrow> nat \<Rightarrow> warehouse \<Rightarrow> bool" where
  "assignedQuery isOwner account wid w =
     (warehouseOid w = wid \<and>
      (if isOwner then ownerId w = account
       else account \<in> set (workers w) \<or> ownerId w = account))"

definition assignedToWarehouse ::
  "bool \<Rightarrow> session \<Rightarrow> nat \<Rightarrow> warehouse list \<Rightarrow> response + warehouse"
where
  "assignedToWarehouse isOwner s wid whs =
     (case find (assignedQuery isOwner (warehouseAccountId s) wid) whs of
        None \<Rightarrow> Inl (if isOwner then A0012 else A0011)
      | Some w \<Rightarrow> Inr w)"

subsection \<open>PATCH /warehouses/:warehouseId/collateral\<close>

record collateralFlags =
  cHasFunds :: bool
  cAvailableCollateral :: bool
  cWalletFound :: bool

definition incStelo :: "int \<Rightarrow> wallet \<Rightarrow> wallet" where
  "incStelo d w = w\<lparr>walletAssets := incAsset ''stelo'' d (walletAssets w)\<rparr>"

definition incBothCollaterals :: "int \<Rightarrow> warehouse \<Rightarrow> warehouse" where
  "incBothCollaterals d w =
     w\<lparr>collateral := collateral w + d, collateralAvailable := collateralAvailable w + d\<rparr>"

definition collateralCallback ::
  "session \<Rightarrow> nat \<Rightarrow> int \<Rightarrow> db \<Rightarrow> collateralFlags \<times> db option"
where
  "collateralCallback s wid bal d =
     (let flags = \<lparr>cHasFunds = True, cAvailableCollateral = True, cWalletFound = True\<rparr> in
      if \<not> bal < 0 then
        (let f = senderFilter (walletId s) [(''stelo'', bal)] in
         if find f (wallets d) = None then (flags\<lparr>cHasFunds := False\<rparr>, None)
         else
           (flags,
            Some (d\<lparr>wallets := updateFirst f (incStelo (- bal)) (wallets d),
                    warehouses := updateFirst (\<lambda>w. warehouseOid w = wid)
                                    (incBothCollaterals bal) (warehouses d)\<rparr>)))
      else
        (let f = (\<lambda>w. warehouseOid w = wid \<and> \<bar>bal\<bar> \<le> collateralAvailable w) in
         if find f (warehouses d) = None then (flags\<lparr>cAvailableCollateral := False\<rparr>, None)
         else
           (let whs = updateFirst f (incBothCollaterals bal) (warehouses d);
                u = (\<lambda>w. walletOid w = walletId s)
            in if find u (wallets d) = None then (flags\<lparr>cWalletFound := False\<rparr>, None)
               else (flags,
                     Some (d\<lparr>warehouses := whs,
                             wallets := updateFirst u (incStelo \<bar>bal\<bar>) (wallets d)\<rparr>)))))"

definition patchCollateral :: "session \<Rightarrow> nat \<Rightarrow> int \<Rightarrow> server \<Rightarrow> response \<times> server" where
  "patchCollateral s wid bal srv =
     (case assignedToWarehouse True s wid (warehouses (database srv)) of
        Inl err \<Rightarrow> (err, srv)
      | Inr reqWarehouse \<Rightarrow>
          if bal = 0 then (G0000, srv)
          else if bal < 0 \<and> \<bar>bal\<bar> > collateralAvailable reqWarehouse then (H0000, srv)
          else
            (let (flags, d) =
                   withTransaction (database srv) (collateralCallback s wid bal (database srv))
             in (if \<not> cHasFunds flags then W0002
                 else if \<not> cAvailableCollateral flags then H0000
                 else if \<not> cWalletFound flags then W0001
                 else Success,
                 srv\<lparr>database := d\<rparr>)))"

subsection \<open>POST /warehouses/:warehouseId/assets (deposit)\<close>

record assetsRequest =
  party :: string
  reqAssets :: assetsToCheck

record depositFlags =
  dRecipientFound :: bool
  dCollateralAvailable :: bool

definition depositCallback ::
  "nat \<Rightarrow> assetsRequest \<Rightarrow> int \<Rightarrow> db \<Rightarrow> depositFlags \<times> db option"
where
  "depositCallback wid r collateralNeeded d =
     (let flags = \<lparr>dRecipientFound = True, dCollateralAvailable = True\<rparr>;
          update = \<lparr>incCollateralAvailable = Some (- collateralNeeded),
                    incAssetsBy = amounts (reqAssets r)\<rparr>;
          f = (\<lambda>w. warehouseOid w = wid \<and> collateralNeeded \<le> collateralAvailable w)
      in if find f (warehouses d) = None then (flags\<lparr>dCollateralAvailable := False\<rparr>, None)
         else
           (let whs = updateFirst f (applyToWarehouse update) (warehouses d);
                u = (\<lambda>w. username w = Some (party r))
            in if find u (wallets d) = None then (flags\<lparr>dRecipientFound := False\<rparr>, None)
               else (flags,
                     Some (d\<lparr>warehouses := whs,
                             wallets := updateFirst u (applyToWallet update) (wallets d)\<rparr>))))"

definition postWarehouseAssets ::
  "env \<Rightarrow> session \<Rightarrow> nat \<Rightarrow> assetsRequest \<Rightarrow> server \<Rightarrow> response \<times> server"
where
  "postWarehouseAssets e s wid r srv =
     (case assignedToWarehouse False s wid (warehouses (database srv)) of
        Inl err \<Rightarrow> (err, srv)
      | Inr reqWarehouse \<Rightarrow>
          if reqAssets r = [] then (G0000, srv)
          else
            (let v = validateAssets (dateNow e) (priceSource e) (appState srv) (reqAssets r) False;
                 srv1 = srv\<lparr>appState := appAfter v\<rparr>
             in if returned v < 0 then (G0000, srv1)
                else if returnedNaN v then (OutsideModel, srv1)
                else
                  (let collateralNeeded = returned v in
                   if collateralAvailable reqWarehouse < collateralNeeded then (H0000, srv1)
                   else
                     (let (flags, d) =
                            withTransaction (database srv1)
                              (depositCallback wid r collateralNeeded (database srv1))
                      in (if \<not> dRecipientFound flags then W0003
                          else if \<not> dCollateralAvailable flags then H0000
                          else Success,
                          srv1\<lparr>database := d\<rparr>)))))"

subsection \<open>DELETE /warehouses/:warehouseId/assets (withdrawal)\<close>

text \<open>
  The collateral to return, after the overflow test against the \<open>req.warehouse\<close> the
  middleware read.
\<close>

definition collateralToReturn :: "warehouse \<Rightarrow> int \<Rightarrow> int" where
  "collateralToReturn reqWarehouse validAssetsResult =
     (if collateralAvailable reqWarehouse + validAssetsResult > collateral reqWarehouse
      then validAssetsResult
             - (collateralAvailable reqWarehouse - collateral reqWarehouse + validAssetsResult)
      else validAssetsResult)"

record withdrawFlags =
  userHasFunds :: bool
  warehouseHasFunds :: bool

definition withdrawCallback ::
  "nat \<Rightarrow> assetsRequest \<Rightarrow> int \<Rightarrow> db \<Rightarrow> withdrawFlags \<times> db option"
where
  "withdrawCallback wid r toReturn d =
     (let flags = \<lparr>userHasFunds = True, warehouseHasFunds = True\<rparr>;
          conds = amounts (reqAssets r);
          update = \<lparr>incCollateralAvailable = Some toReturn, incAssetsBy = negated conds\<rparr>;
          f = (\<lambda>w. warehouseOid w = wid \<and> gteAssets conds (warehouseAssets w))
      in if find f (warehouses d) = None then (flags\<lparr>warehouseHasFunds := False\<rparr>, None)
         else
           (let whs = updateFirst f (applyToWarehouse update) (warehouses d);
                u = (\<lambda>w. gteAssets conds (walletAssets w) \<and> username w = Some (party r))
            in if find u (wallets d) = None then (flags\<lparr>userHasFunds := False\<rparr>, None)
               else (flags,
                     Some (d\<lparr>warehouses := whs,
                             wallets := updateFirst u (applyToWallet update) (wallets d)\<rparr>))))"

text \<open>
  The route handler proper. It runs after the middleware, on the \<open>req.warehouse\<close> the
  middleware read; the server it meets is the one of the moment it runs. The transaction
  does not read \<open>collateralAvailable\<close> again.
\<close>

definition withdrawHandler ::
  "env \<Rightarrow> warehouse \<Rightarrow> nat \<Rightarrow> assetsRequest \<Rightarrow> server \<Rightarrow> response \<times> server"
where
  "withdrawHandler e reqWarehouse wid r srv =
     (if reqAssets r = [] then (G0000, srv)
      else
        (let v = validateAssets (dateNow e) (priceSource e) (appState srv) (reqAssets r) False;
             srv1 = srv\<lparr>appState := appAfter v\<rparr>
         in if returned v < 0 then (G0000, srv1)
            else if returnedNaN v then (OutsideModel, srv1)
            else
              (let toReturn = collateralToReturn reqWarehouse (returned v);
                   (flags, d) =
                     withTransaction (database srv1)
                       (withdrawCallback wid r toReturn (database srv1))
               in (if \<not> userHasFunds flags then W0002
                   else if \<not> warehouseHasFunds flags then H0001
                   else Success,
                   srv1\<lparr>database := d\<rparr>))))"

text \<open>
  One withdrawal request with no other request between its middleware and its handler.
\<close>

definition deleteWarehouseAssets ::
  "env \<Rightarrow> session \<Rightarrow> nat \<Rightarrow> assetsRequest \<Rightarrow> server \<Rightarrow> response \<times> server"
where
  "deleteWarehouseAssets e s wid r srv =
     (case assignedToWarehouse False s wid (warehouses (database srv)) of
        Inl err \<Rightarrow> (err, srv)
      | Inr reqWarehouse \<Rightarrow> withdrawHandler e reqWarehouse wid r srv)"

text \<open>
  Two withdrawal requests on one warehouse that overlap: the middleware of both has read
  \<open>req.warehouse\<close> (it awaits \<open>findOne\<close> and calls \<open>next\<close>) before the handler of
  either reaches its transaction; the handlers then run one after the other.
\<close>

definition overlappingWithdrawals ::
  "env \<Rightarrow> session \<Rightarrow> nat \<Rightarrow> assetsRequest \<Rightarrow> assetsRequest \<Rightarrow> server
     \<Rightarrow> (response \<times> response) \<times> server"
where
  "overlappingWithdrawals e s wid r1 r2 srv =
     (case assignedToWarehouse False s wid (warehouses (database srv)) of
        Inl err \<Rightarrow> ((err, err), srv)
      | Inr reqWarehouse1 \<Rightarrow>
          (case assignedToWarehouse False s wid (warehouses (database srv)) of
             Inl err \<Rightarrow> ((err, err), srv)
           | Inr reqWarehouse2 \<Rightarrow>
               (let (response1, srv1) = withdrawHandler e reqWarehouse1 wid r1 srv;
                    (response2, srv2) = withdrawHandler e reqWarehouse2 wid r2 srv1
                in ((response1, response2), srv2))))"

section \<open>Warehouse transfers (api/transfers.ts)\<close>

record transferRequest =
  reqReceivingWarehouse :: nat
  reqSendingWarehouse :: nat
  reqTransferAssets :: assetsToCheck

record createFlags =
  tWarehouseHasFunds :: bool
  tWarehouseHasCollateral :: bool

text \<open>
  POST /transfers. The first update increments one field only, so \<open>modifiedCount\<close> is 0
  not only when no warehouse matches but also when the increment is 0.
\<close>

definition createCallback ::
  "transferRequest \<Rightarrow> int \<Rightarrow> db \<Rightarrow> createFlags \<times> db option"
where
  "createCallback r collateralNeeded d =
     (let flags = \<lparr>tWarehouseHasFunds = True, tWarehouseHasCollateral = True\<rparr>;
          f = (\<lambda>w. warehouseOid w = reqReceivingWarehouse r
                     \<and> collateralNeeded \<le> collateralAvailable w)
      in if find f (warehouses d) = None \<or> collateralNeeded = 0
         then (flags\<lparr>tWarehouseHasCollateral := False\<rparr>, None)
         else
           (let whs1 = updateFirst f
                         (\<lambda>w. w\<lparr>collateralAvailable := collateralAvailable w - collateralNeeded\<rparr>)
                         (warehouses d);
                conds = amounts (reqTransferAssets r);
                g = (\<lambda>w. warehouseOid w = reqSendingWarehouse r
                           \<and> gteAssets conds (warehouseAssets w))
            in if find g whs1 = None then (flags\<lparr>tWarehouseHasFunds := False\<rparr>, None)
               else
                 (flags,
                  Some (d\<lparr>warehouses :=
                            updateFirst g
                              (applyToWarehouse \<lparr>incCollateralAvailable = None,
                                                 incAssetsBy = negated conds\<rparr>) whs1,
                          transfers :=
                            transfers d @
                              [\<lparr>transferOid = freshOid (map transferOid (transfers d)),
                                status = Pending,
                                collateralUsed = collateralNeeded,
                                receivingWarehouse = reqReceivingWarehouse r,
                                sendingWarehouse = reqSendingWarehouse r,
                                transferAssets = conds\<rparr>]\<rparr>))))"

definition postTransfer ::
  "env \<Rightarrow> session \<Rightarrow> transferRequest \<Rightarrow> server \<Rightarrow> response \<times> server"
where
  "postTransfer e s r srv =
     (if reqTransferAssets r = [] then (G0000, srv)
      else
        (let v = validateAssets (dateNow e) (priceSource e) (appState srv)
                   (reqTransferAssets r) False;
             srv1 = srv\<lparr>appState := appAfter v\<rparr>
         in if returned v < 0 then (G0000, srv1)
            else if returnedNaN v then (OutsideModel, srv1)
            else
              (let collateralNeeded = returned v in
               case assignedToWarehouse False s (reqReceivingWarehouse r)
                      (warehouses (database srv1)) of
                 Inl err \<Rightarrow> (A0011, srv1)
               | Inr result \<Rightarrow>
                   if collateralAvailable result < collateralNeeded then (H0000, srv1)
                   else
                     (let (flags, d) =
                            withTransaction (database srv1)
                              (createCallback r collateralNeeded (database srv1))
                      in (if \<not> tWarehouseHasFunds flags then H0001
                          else if \<not> tWarehouseHasCollateral flags then H0000
                          else Success,
                          srv1\<lparr>database := d\<rparr>)))))"

record transferFlags =
  tranferFound :: bool
  assignedToTransfer :: bool

text \<open>
  The requester check of the transfer routes: the caller's warehouse account has one of
  the given warehouses in its \<open>warehouses\<close> array.
\<close>

definition requesterAssigned :: "session \<Rightarrow> nat list \<Rightarrow> warehouseAccount list \<Rightarrow> bool" where
  "requesterAssigned s wids accounts =
     (find (\<lambda>a. accountOid a = warehouseAccountId s
                 \<and> (\<exists>w \<in> set wids. w \<in> set (assignedWarehouses a))) accounts \<noteq> None)"

definition returnAssets :: "(string \<times> int) list \<Rightarrow> warehouse \<Rightarrow> warehouse" where
  "returnAssets xs w =
     applyToWarehouse \<lparr>incCollateralAvailable = None, incAssetsBy = xs\<rparr> w"

definition returnCollateral :: "int \<Rightarrow> warehouse \<Rightarrow> warehouse" where
  "returnCollateral c w = w\<lparr>collateralAvailable := collateralAvailable w + c\<rparr>"

definition transferResponse :: "transferFlags \<Rightarrow> response" where
  "transferResponse flags =
     (if \<not> assignedToTransfer flags then T0002
      else if \<not> tranferFound flags then T0001
      else Success)"

text \<open>DELETE /transfers/:transferId (cancel a pending transfer).\<close>

definition cancelCallback :: "session \<Rightarrow> nat \<Rightarrow> db \<Rightarrow> transferFlags \<times> db option" where
  "cancelCallback s tid d =
     (let flags = \<lparr>tranferFound = True, assignedToTransfer = True\<rparr>;
          f = (\<lambda>t. transferOid t = tid \<and> status t = Pending)
      in case find f (transfers d) of
           None \<Rightarrow> (flags\<lparr>tranferFound := False\<rparr>, None)
         | Some t \<Rightarrow>
             if \<not> requesterAssigned s [receivingWarehouse t, sendingWarehouse t]
                    (warehouseAccounts d)
             then (flags\<lparr>assignedToTransfer := False\<rparr>, None)
             else
               (flags,
                Some (d\<lparr>transfers := deleteFirst f (transfers d),
                        warehouses :=
                          updateFirst (\<lambda>w. warehouseOid w = receivingWarehouse t)
                            (returnCollateral (collateralUsed t))
                            (updateFirst (\<lambda>w. warehouseOid w = sendingWarehouse t)
                               (returnAssets (transferAssets t)) (warehouses d))\<rparr>)))"

definition deleteTransfer :: "session \<Rightarrow> nat \<Rightarrow> server \<Rightarrow> response \<times> server" where
  "deleteTransfer s tid srv =
     (let (flags, d) = withTransaction (database srv) (cancelCallback s tid (database srv))
      in (transferResponse flags, srv\<lparr>database := d\<rparr>))"

text \<open>PUT /transfers/:transferId/status with body \<open>{ status: "sent" }\<close>.\<close>

definition sentCallback :: "session \<Rightarrow> nat \<Rightarrow> db \<Rightarrow> transferFlags \<times> db option" where
  "sentCallback s tid d =
     (let flags = \<lparr>tranferFound = True, assignedToTransfer = True\<rparr>;
          f = (\<lambda>t. transferOid t = tid \<and> status t = Pending)
      in case find f (transfers d) of
           None \<Rightarrow> (flags\<lparr>tranferFound := False\<rparr>, None)
         | Some t \<Rightarrow>
             if \<not> requesterAssigned s [sendingWarehouse t] (warehouseAccounts d)
             then (flags\<lparr>assignedToTransfer := False\<rparr>, None)
             else (flags,
                   Some (d\<lparr>transfers := updateFirst f (\<lambda>t. t\<lparr>status := Sent\<rparr>) (transfers d)\<rparr>)))"

text \<open>PUT /transfers/:transferId/status with body \<open>{ status: "received" }\<close>.\<close>

definition receivedCallback :: "session \<Rightarrow> nat \<Rightarrow> db \<Rightarrow> transferFlags \<times> db option" where
  "receivedCallback s tid d =
     (let flags = \<lparr>tranferFound = True, assignedToTransfer = True\<rparr>;
          f = (\<lambda>t. transferOid t = tid \<and> status t = Sent)
      in case find f (transfers d) of
           None \<Rightarrow> (flags\<lparr>tranferFound := False\<rparr>, None)
         | Some t \<Rightarrow>
             if \<not> requesterAssigned s [receivingWarehouse t] (warehouseAccounts d)
             then (flags\<lparr>assignedToTransfer := False\<rparr>, None)
             else
               (flags,
                Some (d\<lparr>transfers := deleteFirst f (transfers d),
                        warehouses :=
                          updateFirst (\<lambda>w. warehouseOid w = sendingWarehouse t)
                            (returnCollateral (collateralUsed t))
                            (updateFirst (\<lambda>w. warehouseOid w = receivingWarehouse t)
                               (returnAssets (transferAssets t)) (warehouses d))\<rparr>)))"

datatype statusBody = StatusSent | StatusReceived

definition putTransferStatus ::
  "session \<Rightarrow> nat \<Rightarrow> statusBody \<Rightarrow> server \<Rightarrow> response \<times> server"
where
  "putTransferStatus s tid body srv =
     (let (flags, d) =
            withTransaction (database srv)
              (case body of
                 StatusSent \<Rightarrow> sentCallback s tid (database srv)
               | StatusReceived \<Rightarrow> receivedCallback s tid (database srv))
      in (transferResponse flags, srv\<lparr>database := d\<rparr>))"

section \<open>Approving a registration with the genesis distribution (PUT /users/:username)\<close>

record approveFlags =
  aHasFunds :: bool
  distributionFound :: bool
  alreadyTaken :: bool

text \<open>
  \<open>Math.floor(250000000 + stelo * 0.0015)\<close>, computed exactly: the model takes the
  floor of the exact product, where JavaScript rounds the product to a double first.
\<close>

definition freeStelo :: "int \<Rightarrow> int" where
  "freeStelo stelo = 250000000 + (stelo * 15) div 10000"

definition newUser :: "nat \<Rightarrow> string \<Rightarrow> assetMap \<Rightarrow> wallet" where
  "newUser oid name m =
     \<lparr>walletOid = oid, username = Some name, address = None, webhook = None,
      walletAssets = m, walletCollateralAvailable = None\<rparr>"

definition isGenesis :: "wallet \<Rightarrow> bool" where
  "isGenesis w = (address w = Some ''genesisdistribution'')"

text \<open>
  The callback of the distribution branch. \<open>insertOne\<close> throws when the unique index on
  the user name refuses the document. A genesis wallet without a \<open>stelo\<close> field makes
  JavaScript compute with \<open>undefined\<close>; the model stops there (\<open>Inl\<close>).
\<close>

definition distributionCallback ::
  "string \<Rightarrow> wallet list \<Rightarrow> unit + approveFlags \<times> wallet list option"
where
  "distributionCallback name ws =
     (let flags = \<lparr>aHasFunds = True, distributionFound = True, alreadyTaken = False\<rparr> in
      case find isGenesis ws of
        None \<Rightarrow> Inr (flags\<lparr>distributionFound := False\<rparr>, None)
      | Some distribution \<Rightarrow>
          (case walletAssets distribution ''stelo'' of
             None \<Rightarrow> Inl ()
           | Some stelo \<Rightarrow>
               if stelo \<le> 500 then Inr (flags\<lparr>aHasFunds := False\<rparr>, None)
               else if find (\<lambda>w. username w = Some name) ws \<noteq> None
               then Inr (flags\<lparr>alreadyTaken := True\<rparr>, None)
               else
                 Inr (flags,
                      Some (updateFirst isGenesis (incStelo (- freeStelo stelo))
                              (ws @ [newUser (freshOid (map walletOid ws)) name
                                       [''stelo'' \<mapsto> freeStelo stelo]])))))"

record approveRequest =
  approveUsername :: string
  registrationCached :: bool
  distribution :: bool

definition putUser :: "approveRequest \<Rightarrow> server \<Rightarrow> response \<times> server" where
  "putUser r srv =
     (let d = database srv; ws = wallets d in
      if \<not> registrationCached r then (U0001, srv)
      else if distribution r then
        (case distributionCallback (approveUsername r) ws of
           Inl _ \<Rightarrow> (OutsideModel, srv)
         | Inr res \<Rightarrow>
             (let (flags, ws') = withTransaction ws res in
              (if \<not> distributionFound flags then S0000
               else if \<not> aHasFunds flags then S0001
               else if alreadyTaken flags then U0000
               else Success,
               srv\<lparr>database := d\<lparr>wallets := ws'\<rparr>\<rparr>)))
      else if find (\<lambda>w. username w = Some (approveUsername r)) ws \<noteq> None then (U0000, srv)
      else
        (Success,
         srv\<lparr>database :=
               d\<lparr>wallets := ws @ [newUser (freshOid (map walletOid ws)) (approveUsername r)
                                      Map.empty]\<rparr>\<rparr>))"

section \<open>Sequences of operations\<close>

text \<open>
  The requests of a sequence run one after the other: the middleware and the handler of
  each see the ledger the request before left, and no other request comes between them.
  Requests that overlap are modelled where they matter (\<open>overlappingWithdrawals\<close>).
\<close>

datatype operation =
    PeerTransaction session txRequest
  | AdjustCollateral session nat int
  | Deposit session nat assetsRequest
  | Withdraw session nat assetsRequest
  | CreateTransfer session transferRequest
  | CancelTransfer session nat
  | UpdateStatus session nat statusBody
  | ApproveUser approveRequest

fun perform :: "env \<Rightarrow> operation \<Rightarrow> server \<Rightarrow> response \<times> server" where
  "perform e (PeerTransaction s r) srv = postTransaction e s r srv"
| "perform e (AdjustCollateral s wid bal) srv = patchCollateral s wid bal srv"
| "perform e (Deposit s wid r) srv = postWarehouseAssets e s wid r srv"
| "perform e (Withdraw s wid r) srv = deleteWarehouseAssets e s wid r srv"
| "perform e (CreateTransfer s r) srv = postTransfer e s r srv"
| "perform e (CancelTransfer s tid) srv = deleteTransfer s tid srv"
| "perform e (UpdateStatus s tid body) srv = putTransferStatus s tid body srv"
| "perform e (ApproveUser r) srv = putUser r srv"

text \<open>Each request of a sequence comes with the environment it runs in.\<close>

fun run :: "(env \<times> operation) list \<Rightarrow> server \<Rightarrow> server" where
  "run [] srv = srv"
| "run ((e, op) # rest) srv = run rest (snd (perform e op srv))"

section \<open>Vocabulary of the properties\<close>

text \<open>An entry is stale when its \<open>updatedAt\<close> is more than thirty minutes back.\<close>

definition stale :: "int \<Rightarrow> priceEntry \<Rightarrow> bool" where
  "stale now e = (updatedAt e < now - thirtyMinutes)"

text \<open>The requested symbols that have a stale entry in the table, in request order.\<close>

definition staleKeys :: "int \<Rightarrow> assetTable \<Rightarrow> assetsToCheck \<Rightarrow> string list" where
  "staleKeys now g atc =
     filter (\<lambda>k. case g k of Some e \<Rightarrow> stale now e | None \<Rightarrow> False) (map fst atc)"

text \<open>The symbols a call fetched one by one from the price source.\<close>

fun refreshedKeys :: "redisCall list \<Rightarrow> string list" where
  "refreshedKeys [] = []"
| "refreshedKeys (HGETALL # cs) = refreshedKeys cs"
| "refreshedKeys (HMGET ks # cs) = ks @ refreshedKeys cs"

text \<open>
  What the first loop of \<open>validateAssets\<close> asks of one entry of the request, said of the
  inputs of the call: the quantity is an integer from 1 up, and the symbol is in the price
  table (or is a property name the table inherits), or it is \<open>stelo\<close> and \<open>stelo\<close> is
  allowed, or the table is more than sixty minutes old and the price source has the
  symbol.
\<close>

definition acceptable :: "int \<Rightarrow> redisAssets \<Rightarrow> app \<Rightarrow> bool \<Rightarrow> string \<times> quantity \<Rightarrow> bool" where
  "acceptable now redis a steloAllowed entry =
     ((case snd entry of NotInteger \<Rightarrow> False | Integer n \<Rightarrow> 1 \<le> n) \<and>
      (fst entry \<in> dom (assets a) \<or> fst entry \<in> set inheritedKeys \<or>
       (if fst entry = ''stelo'' then steloAllowed
        else assetsCheckedAt a < now - thirtyMinutes * 2 \<and> fst entry \<in> dom (map_of redis))))"

text \<open>
  The valuation of a request stays within the safe range of doubles: the magnitudes of the
  products of unit value and quantity add up to at most \<open>Number.MAX_SAFE_INTEGER\<close>, so
  every product and every partial sum of the loop is computed exactly.
\<close>

definition withinSafeRange :: "app \<Rightarrow> assetsToCheck \<Rightarrow> bool" where
  "withinSafeRange a atc =
     ((\<Sum>(k, q) \<leftarrow> atc. \<bar>(case assets a k of Some e \<Rightarrow> unitValue e | None \<Rightarrow> 0) * intval q\<bar>)
        \<le> maxSafeInteger)"

text \<open>
  A price table for the examples: wood last priced at time 0, iron at 1900000, the whole
  table loaded at 1900000 (milliseconds). At time 2000000 the wood entry is stale and the
  iron entry and the table are fresh.
\<close>

definition cacheExample :: app where
  "cacheExample =
     \<lparr>assets = [''wood'' \<mapsto> \<lparr>unitValue = 20, updatedAt = 0\<rparr>,
                ''iron'' \<mapsto> \<lparr>unitValue = 3, updatedAt = 1900000\<rparr>],
      assetsCheckedAt = 1900000\<rparr>"

definition sourceExample :: redisAssets where
  "sourceExample = [(''wood'', 25), (''iron'', 4)]"

text \<open>Looking a document up by its \<open>_id\<close>.\<close>

definition walletById :: "nat \<Rightarrow> wallet list \<Rightarrow> wallet option" where
  "walletById i ws = find (\<lambda>w. walletOid w = i) ws"

definition warehouseById :: "nat \<Rightarrow> warehouse list \<Rightarrow> warehouse option" where
  "warehouseById i whs = find (\<lambda>w. warehouseOid w = i) whs"

definition transferById :: "nat \<Rightarrow> transfer list \<Rightarrow> transfer option" where
  "transferById i ts = find (\<lambda>t. transferOid t = i) ts"

text \<open>
  A ledger for the examples of the peer transaction: the user alice with 10 gold, the user
  bob with nothing, and the smart wallet \<open>#shop\<close> with a webhook. Gold is priced at 50.
\<close>

definition alice :: wallet where
  "alice = \<lparr>walletOid = 1, username = Some ''alice'', address = None, webhook = None,
            walletAssets = [''gold'' \<mapsto> 10], walletCollateralAvailable = None\<rparr>"

definition bob :: wallet where
  "bob = \<lparr>walletOid = 2, username = Some ''bob'', address = None, webhook = None,
          walletAssets = Map.empty, walletCollateralAvailable = None\<rparr>"

definition shop :: wallet where
  "shop = \<lparr>walletOid = 3, username = None, address = Some ''shop'',
           webhook = Some ''https://shop.example/hook'',
           walletAssets = [''gold'' \<mapsto> 2], walletCollateralAvailable = None\<rparr>"

definition peerServer :: server where
  "peerServer =
     \<lparr>appState = \<lparr>assets = [''gold'' \<mapsto> \<lparr>unitValue = 50, updatedAt = 0\<rparr>],
                  assetsCheckedAt = 0\<rparr>,
      database = \<lparr>wallets = [alice, bob, shop], warehouses = [], transfers = [],
                  warehouseAccounts = []\<rparr>\<rparr>"

definition aliceSession :: session where
  "aliceSession = \<lparr>walletId = 1, warehouseAccountId = 0\<rparr>"

definition shopSession :: session where
  "shopSession = \<lparr>walletId = 3, warehouseAccountId = 0\<rparr>"

text \<open>An environment whose webhook endpoints answer 500, and one where they answer 200.\<close>

definition envWebhookDown :: env where
  "envWebhookDown = \<lparr>dateNow = 1000, priceSource = [], axiosPost = (\<lambda>url. NonSuccessStatus)\<rparr>"

definition envWebhookUp :: env where
  "envWebhookUp = \<lparr>dateNow = 1000, priceSource = [], axiosPost = (\<lambda>url. Resolved)\<rparr>"

text \<open>
  A ledger with the genesis distribution wallet holding 1000 stelo, and the same ledger
  with that wallet overdrawn.
\<close>

definition genesis :: "int \<Rightarrow> wallet" where
  "genesis stelo =
     \<lparr>walletOid = 1, username = None, address = Some ''genesisdistribution'', webhook = None,
      walletAssets = [''stelo'' \<mapsto> stelo], walletCollateralAvailable = None\<rparr>"

definition genesisServer :: "int \<Rightarrow> server" where
  "genesisServer stelo =
     \<lparr>appState = \<lparr>assets = Map.empty, assetsCheckedAt = 0\<rparr>,
      database = \<lparr>wallets = [genesis stelo], warehouses = [], transfers = [],
                  warehouseAccounts = []\<rparr>\<rparr>"


text \<open>
  The \<open>collateralAvailable\<close> field of a wallet document read as a number: an absent
  field counts as 0, which is what \<open>$inc\<close> starts from.
\<close>

definition strayCollateral :: "wallet \<Rightarrow> int" where
  "strayCollateral w = (case walletCollateralAvailable w of None \<Rightarrow> 0 | Some c \<Rightarrow> c)"

text \<open>The collateral bound of the data model.\<close>

definition collateralBound :: "warehouse \<Rightarrow> bool" where
  "collateralBound w = (0 \<le> collateralAvailable w \<and> collateralAvailable w \<le> collateral w)"

text \<open>The two requests that give the collateral of a transfer record back.\<close>

fun releasesTransferCollateral :: "operation \<Rightarrow> bool" where
  "releasesTransferCollateral (CancelTransfer s tid) = True"
| "releasesTransferCollateral (UpdateStatus s tid StatusReceived) = True"
| "releasesTransferCollateral other = False"

text \<open>
  Two warehouses for the examples. Warehouse 1 (owned by account 7) has 1000 collateral,
  all of it available; warehouse 2 (owned by account 8) has 10. The user carol deposits
  and withdraws. Wood is priced at 1 in the table, as of time 0.
\<close>

definition warehouseA :: warehouse where
  "warehouseA = \<lparr>warehouseOid = 1, warehouseName = ''north'', ownerId = 7, workers = [],
                 collateral = 1000, collateralAvailable = 1000, warehouseAssets = Map.empty\<rparr>"

definition warehouseB :: warehouse where
  "warehouseB = \<lparr>warehouseOid = 2, warehouseName = ''south'', ownerId = 8, workers = [],
                 collateral = 10, collateralAvailable = 10, warehouseAssets = Map.empty\<rparr>"

definition carol :: wallet where
  "carol = \<lparr>walletOid = 5, username = Some ''carol'', address = None, webhook = None,
            walletAssets = Map.empty, walletCollateralAvailable = None\<rparr>"

definition tradeServer :: server where
  "tradeServer =
     \<lparr>appState = \<lparr>assets = [''wood'' \<mapsto> \<lparr>unitValue = 1, updatedAt = 0\<rparr>],
                  assetsCheckedAt = 0\<rparr>,
      database = \<lparr>wallets = [carol], warehouses = [warehouseA, warehouseB], transfers = [],
                  warehouseAccounts = [\<lparr>accountOid = 7, assignedWarehouses = [1]\<rparr>,
                                       \<lparr>accountOid = 8, assignedWarehouses = [2]\<rparr>]\<rparr>\<rparr>"

definition sessionA :: session where
  "sessionA = \<lparr>walletId = 0, warehouseAccountId = 7\<rparr>"

definition sessionB :: session where
  "sessionB = \<lparr>walletId = 0, warehouseAccountId = 8\<rparr>"

text \<open>
  The clock and the price source at two moments: early, when the table entry of wood is
  fresh, and more than thirty minutes later, when the price source says 20.
\<close>

definition envEarly :: env where
  "envEarly = \<lparr>dateNow = 1000, priceSource = [(''wood'', 1)], axiosPost = (\<lambda>url. Resolved)\<rparr>"

definition envLate :: env where
  "envLate = \<lparr>dateNow = 2000000, priceSource = [(''wood'', 20)], axiosPost = (\<lambda>url. Resolved)\<rparr>"

text \<open>
  A deposit of 10 wood into warehouse 2 while wood is worth 1, then, after the price has
  gone to 20, a transfer of the 10 wood from warehouse 2 to warehouse 1: created by the
  receiving side, marked sent by the sending side, confirmed by the receiving side.
\<close>

definition woodRequest :: assetsRequest where
  "woodRequest = \<lparr>party = ''carol'', reqAssets = [(''wood'', Integer 10)]\<rparr>"

text \<open>A request to withdraw half of the wood carol deposited.\<close>

definition halfWoodRequest :: assetsRequest where
  "halfWoodRequest = \<lparr>party = ''carol'', reqAssets = [(''wood'', Integer 5)]\<rparr>"

definition woodTransfer :: transferRequest where
  "woodTransfer = \<lparr>reqReceivingWarehouse = 1, reqSendingWarehouse = 2,
                   reqTransferAssets = [(''wood'', Integer 10)]\<rparr>"

definition tradeUntilSent :: "(env \<times> operation) list" where
  "tradeUntilSent =
     [(envEarly, Deposit sessionB 2 woodRequest),
      (envLate, CreateTransfer sessionA woodTransfer),
      (envLate, UpdateStatus sessionB 1 StatusSent)]"

definition trade :: "(env \<times> operation) list" where
  "trade = tradeUntilSent @ [(envLate, UpdateStatus sessionA 1 StatusReceived)]"

text \<open>A summary of a warehouse: identifier, collateral, available collateral, wood.\<close>

definition summary :: "warehouse \<Rightarrow> nat \<times> int \<times> int \<times> int" where
  "summary w = (warehouseOid w, collateral w, collateralAvailable w,
                balance (warehouseAssets w) ''wood'')"

text \<open>The ledger the first three requests of \<open>trade\<close> lead to, written out.\<close>

definition sentTransfer :: transfer where
  "sentTransfer = \<lparr>transferOid = 1, status = Sent, collateralUsed = 200,
                    receivingWarehouse = 1, sendingWarehouse = 2,
                    transferAssets = [(''wood'', 10)]\<rparr>"

definition sentServer :: server where
  "sentServer =
     \<lparr>appState = \<lparr>assets = [''wood'' \<mapsto> \<lparr>unitValue = 20, updatedAt = 2000000\<rparr>],
                  assetsCheckedAt = 0\<rparr>,
      database =
        \<lparr>wallets = [carol\<lparr>walletAssets := [''wood'' \<mapsto> 10],
                           walletCollateralAvailable := Some (- 10)\<rparr>],
         warehouses = [warehouseA\<lparr>collateralAvailable := 800\<rparr>,
                       warehouseB\<lparr>collateralAvailable := 0,
                                  warehouseAssets := [''wood'' \<mapsto> 0]\<rparr>],
         transfers = [sentTransfer],
         warehouseAccounts = [\<lparr>accountOid = 7, assignedWarehouses = [1]\<rparr>,
                              \<lparr>accountOid = 8, assignedWarehouses = [2]\<rparr>]\<rparr>\<rparr>"

text \<open>The ledger after the deposit alone.\<close>

definition depositedServer :: server where
  "depositedServer = run [(envEarly, Deposit sessionB 2 woodRequest)] tradeServer"

section \<open>Properties of the valuation\<close>



lemma stelo_not_inherited: "''stelo'' \<notin> set inheritedKeys"
  by (simp add: inheritedKeys_def)





text \<open>
  A request the range leaves out: 3002399751580331 wood at a price of 3, whose exact
  valuation 9007199254740993 is no double.
\<close>

lemma beyond_safe_range_example:
  "\<not> withinSafeRange
       \<lparr>assets = [''wood'' \<mapsto> \<lparr>unitValue = 3, updatedAt = 0\<rparr>], assetsCheckedAt = 0\<rparr>
       [(''wood'', Integer 3002399751580331)]"
  by (simp add: withinSafeRange_def maxSafeInteger_def)

lemma refreshedKeys_append: "refreshedKeys (xs @ ys) = refreshedKeys xs @ refreshedKeys ys"
  by (induction xs rule: refreshedKeys.induct) simp_all

text \<open>
  The first loop sends nothing but whole-hash loads, and sends one only for a symbol that
  is neither in the table, nor a property name the table inherits, nor the reserve asset,
  the table's timestamp being more than sixty minutes back.
\<close>

lemma checkLoop_calls:
  "checkLoop now redis g gAt allowed atc s = res \<Longrightarrow>
   (case res of Inl s' \<Rightarrow> s' | Inr s' \<Rightarrow> s') = s' \<Longrightarrow>
   refreshedKeys (calls s') = refreshedKeys (calls s) \<and>
   (HGETALL \<in> set (calls s') \<longrightarrow>
      HGETALL \<in> set (calls s) \<or>
      (gAt < now - thirtyMinutes * 2 \<and>
       (\<exists>k \<in> fst ` set atc. g k = None \<and> k \<noteq> ''stelo'' \<and> k \<notin> set inheritedKeys)))"
proof (induction now redis g gAt allowed atc s arbitrary: res s' rule: checkLoop.induct)
  case (1 now redis g gAt steloAllowed s)
  then show ?case by auto
next
  case (2 now redis g gAt steloAllowed key q rest s)
  show ?case
    using "2.prems" "2.IH"
    by (auto simp: Let_def refreshedKeys_append split: quantity.splits if_splits option.splits)
qed

lemma checkLoop_known:
  "checkLoop now redis g gAt allowed atc s = res \<Longrightarrow>
   (case res of Inl s' \<Rightarrow> s' | Inr s' \<Rightarrow> s') = s' \<Longrightarrow>
   \<forall>k \<in> fst ` set atc. g k \<noteq> None \<Longrightarrow>
   calls s' = calls s"
proof (induction now redis g gAt allowed atc s arbitrary: res s' rule: checkLoop.induct)
  case (1 now redis g gAt steloAllowed s)
  then show ?case by auto
next
  case (2 now redis g gAt steloAllowed key q rest s)
  show ?case
    using "2.prems" "2.IH"
    by (auto simp: Let_def split: quantity.splits if_splits option.splits)
qed

lemma staleKeys_Nil: "staleKeys now g [] = []"
  by (simp add: staleKeys_def)

lemma staleKeys_Cons:
  "staleKeys now g ((k, q) # atc) =
     (case g k of
        Some e \<Rightarrow> if updatedAt e < now - thirtyMinutes then k # staleKeys now g atc
                  else staleKeys now g atc
      | None \<Rightarrow> staleKeys now g atc)"
  by (simp add: staleKeys_def stale_def split: option.splits)

lemma checkLoop_outdated:
  "checkLoop now redis g gAt allowed atc s = Inr s' \<Longrightarrow>
   outdatedAssets s' = outdatedAssets s @ staleKeys now g atc"
proof (induction atc arbitrary: s s')
  case Nil
  then show ?case by (simp add: staleKeys_Nil)
next
  case (Cons kq rest)
  obtain key q where kq: "kq = (key, q)" by (cases kq)
  from Cons.prems kq obtain n where q: "q = Integer n" and n: "1 \<le> n"
    by (cases q) (auto split: if_splits)
  show ?case
  proof (cases "g key")
    case None
    with Cons.prems kq q n show ?thesis
      using Cons.IH
      by (cases allowed) (auto simp: staleKeys_Cons Let_def split: if_splits option.splits)
  next
    case (Some e)
    with Cons.prems kq q n show ?thesis
      using Cons.IH
      by (auto simp: staleKeys_Cons split: if_splits)
  qed
qed

text \<open>The first loop runs to its end exactly on the requests whose entries are all acceptable.\<close>

lemma checkLoop_accepts:
  "(case checkLoop now redis (assets a) (assetsCheckedAt a) allowed atc s of
      Inl _ \<Rightarrow> False | Inr _ \<Rightarrow> True)
   = list_all (acceptable now redis a allowed) atc"
proof (induction atc arbitrary: s)
  case Nil
  then show ?case by simp
next
  case (Cons kq rest)
  obtain key q where kq: "kq = (key, q)" by (cases kq)
  show ?case
  proof (cases q)
    case NotInteger
    with kq show ?thesis by (simp add: acceptable_def)
  next
    case (Integer n)
    show ?thesis
    proof (cases "1 \<le> n")
      case False
      with kq Integer show ?thesis by (simp add: acceptable_def)
    next
      case True
      show ?thesis
      proof (cases "assets a key")
        case (Some e)
        with kq Integer True show ?thesis
          using Cons.IH by (simp add: acceptable_def dom_def)
      next
        case None
        with kq Integer True show ?thesis
          using Cons.IH
          by (cases allowed)
             (auto simp: acceptable_def dom_def Let_def stelo_not_inherited
                   split: option.splits)
      qed
    qed
  qed
qed

lemma assetValueObject_lookup:
  "assetValueObject now redis k =
     map_option (\<lambda>v. \<lparr>unitValue = v, updatedAt = now\<rparr>) (map_of redis k)"
  by (simp add: assetValueObject_def map_of_map)

text \<open>
  One round of the first loop, as far as the application settings and the log of Redis
  calls go: it returns, or goes on with both untouched, or goes on after a whole-hash load
  with a non-empty reply.
\<close>

lemma checkLoop_step:
  "checkLoop now redis g gAt allowed (kq # rest) s = Inl s
   \<or> (redis = [] \<and>
      checkLoop now redis g gAt allowed (kq # rest) s = Inl (s\<lparr>calls := calls s @ [HGETALL]\<rparr>))
   \<or> (redis \<noteq> [] \<and>
      checkLoop now redis g gAt allowed (kq # rest) s =
        Inl (s\<lparr>calls := calls s @ [HGETALL],
               appNow := \<lparr>assets = assetValueObject now redis, assetsCheckedAt = now\<rparr>,
               replaced := True\<rparr>))
   \<or> (\<exists>t. checkLoop now redis g gAt allowed (kq # rest) s
              = checkLoop now redis g gAt allowed rest t
          \<and> calls t = calls s \<and> appNow t = appNow s \<and> replaced t = replaced s)
   \<or> (redis \<noteq> [] \<and>
      (\<exists>t. checkLoop now redis g gAt allowed (kq # rest) s
              = checkLoop now redis g gAt allowed rest t
          \<and> calls t = calls s @ [HGETALL]
          \<and> appNow t = \<lparr>assets = assetValueObject now redis, assetsCheckedAt = now\<rparr>
          \<and> replaced t))"
proof -
  obtain key q where kq: "kq = (key, q)" by (cases kq)
  show ?thesis
  proof (cases q)
    case NotInteger
    with kq show ?thesis by simp
  next
    case (Integer n)
    show ?thesis
    proof (cases "g key")
      case (Some e)
      have "\<exists>t. checkLoop now redis g gAt allowed (kq # rest) s
                  = checkLoop now redis g gAt allowed rest t
              \<and> calls t = calls s \<and> appNow t = appNow s \<and> replaced t = replaced s"
        if "1 \<le> n"
      proof (cases "updatedAt e < now - thirtyMinutes")
        case True
        with kq Integer Some that show ?thesis
          by (intro exI [of _ "s\<lparr>outdatedAssets := outdatedAssets s @ [key]\<rparr>"]) simp
      next
        case False
        with kq Integer Some that show ?thesis
          by (intro exI [of _ "s\<lparr>totalCollateral := totalCollateral s + unitValue e * n\<rparr>"]) simp
      qed
      moreover have "checkLoop now redis g gAt allowed (kq # rest) s = Inl s" if "\<not> 1 \<le> n"
        using kq Integer that by simp
      ultimately show ?thesis by blast
    next
      case None
      show ?thesis
      proof (cases "1 \<le> n")
        case False
        with kq Integer show ?thesis by simp
      next
        case n: True
        show ?thesis
        proof (cases "key \<in> set inheritedKeys")
          case True
          with kq Integer None n have
            "checkLoop now redis g gAt allowed (kq # rest) s
               = checkLoop now redis g gAt allowed rest (s\<lparr>totalNaN := True\<rparr>)"
            by simp
          then have "\<exists>t. checkLoop now redis g gAt allowed (kq # rest) s
                  = checkLoop now redis g gAt allowed rest t
              \<and> calls t = calls s \<and> appNow t = appNow s \<and> replaced t = replaced s"
            by (intro exI [of _ "s\<lparr>totalNaN := True\<rparr>"]) simp
          then show ?thesis by blast
        next
          case inh: False
          show ?thesis
          proof (cases "key = ''stelo''")
            case True
            show ?thesis
            proof (cases allowed)
              case True
              with \<open>key = ''stelo''\<close> kq Integer None n inh have
                "checkLoop now redis g gAt allowed (kq # rest) s
                   = checkLoop now redis g gAt allowed rest s"
                by simp
              then have "\<exists>t. checkLoop now redis g gAt allowed (kq # rest) s
                      = checkLoop now redis g gAt allowed rest t
                  \<and> calls t = calls s \<and> appNow t = appNow s \<and> replaced t = replaced s"
                by (intro exI [of _ s]) simp
              then show ?thesis by blast
            next
              case False
              with \<open>key = ''stelo''\<close> kq Integer None n inh show ?thesis by simp
            qed
          next
            case ns: False
            show ?thesis
            proof (cases "gAt < now - thirtyMinutes * 2")
              case False
              with ns kq Integer None n inh show ?thesis by simp
            next
              case old: True
              show ?thesis
              proof (cases "redis = []")
                case True
                with old ns kq Integer None n inh show ?thesis by (simp add: Let_def)
              next
                case ne: False
                show ?thesis
                proof (cases "map_of redis key")
                  case None
                  with ne old ns kq Integer \<open>g key = None\<close> n inh show ?thesis
                    by (simp add: Let_def)
                next
                  case (Some v)
                  let ?t = "s\<lparr>calls := calls s @ [HGETALL],
                         appNow := \<lparr>assets = assetValueObject now redis, assetsCheckedAt = now\<rparr>,
                         replaced := True,
                         totalCollateral := totalCollateral s + v * n\<rparr>"
                  from Some ne old ns kq Integer \<open>g key = None\<close> n inh have
                    "checkLoop now redis g gAt allowed (kq # rest) s
                       = checkLoop now redis g gAt allowed rest ?t"
                    by (simp add: Let_def)
                  then have "\<exists>t. checkLoop now redis g gAt allowed (kq # rest) s
                      = checkLoop now redis g gAt allowed rest t
                    \<and> calls t = calls s @ [HGETALL]
                    \<and> appNow t = \<lparr>assets = assetValueObject now redis, assetsCheckedAt = now\<rparr>
                    \<and> replaced t"
                    by (intro exI [of _ ?t]) simp
                  with ne show ?thesis by blast
                qed
              qed
            qed
          qed
        qed
      qed
    qed
  qed
qed

text \<open>
  What the first loop does to the application settings: they are untouched until a
  whole-hash load is answered with a non-empty reply, and hold the loaded table from then
  on.
\<close>

lemma checkLoop_app:
  assumes "checkLoop now redis g gAt allowed atc s = res"
      and "(case res of Inl s' \<Rightarrow> s' | Inr s' \<Rightarrow> s') = s'"
      and "if HGETALL \<in> set (calls s) \<and> redis \<noteq> []
           then replaced s \<and> appNow s = \<lparr>assets = assetValueObject now redis, assetsCheckedAt = now\<rparr>
           else \<not> replaced s \<and> appNow s = a"
  shows "if HGETALL \<in> set (calls s') \<and> redis \<noteq> []
         then replaced s' \<and> appNow s' = \<lparr>assets = assetValueObject now redis, assetsCheckedAt = now\<rparr>
         else \<not> replaced s' \<and> appNow s' = a"
  using assms
proof (induction atc arbitrary: s res s')
  case Nil
  then show ?case by auto
next
  case (Cons kq rest)
  let ?L = "checkLoop now redis g gAt allowed (kq # rest) s"
  let ?reload = "\<lparr>assets = assetValueObject now redis, assetsCheckedAt = now\<rparr>"
  from checkLoop_step [of now redis g gAt allowed kq rest s]
  consider
      (stop) "?L = Inl s"
    | (empty) "redis = []" "?L = Inl (s\<lparr>calls := calls s @ [HGETALL]\<rparr>)"
    | (missing) "redis \<noteq> []"
        "?L = Inl (s\<lparr>calls := calls s @ [HGETALL], appNow := ?reload, replaced := True\<rparr>)"
    | (on) t where "?L = checkLoop now redis g gAt allowed rest t"
        "calls t = calls s" "appNow t = appNow s" "replaced t = replaced s"
    | (loaded) t where "redis \<noteq> []" "?L = checkLoop now redis g gAt allowed rest t"
        "calls t = calls s @ [HGETALL]" "appNow t = ?reload" "replaced t"
    by blast
  then show ?case
  proof cases
    case stop
    with Cons.prems show ?thesis by auto
  next
    case empty
    with Cons.prems show ?thesis by auto
  next
    case missing
    with Cons.prems show ?thesis by auto
  next
    case on
    from on Cons.prems(1) have r: "checkLoop now redis g gAt allowed rest t = res" by simp
    from on Cons.prems(3) have i: "if HGETALL \<in> set (calls t) \<and> redis \<noteq> []
           then replaced t \<and> appNow t = ?reload else \<not> replaced t \<and> appNow t = a"
      by simp
    from Cons.IH [OF r Cons.prems(2) i] show ?thesis .
  next
    case loaded
    from loaded Cons.prems(1) have r: "checkLoop now redis g gAt allowed rest t = res" by simp
    from loaded have i: "if HGETALL \<in> set (calls t) \<and> redis \<noteq> []
           then replaced t \<and> appNow t = ?reload else \<not> replaced t \<and> appNow t = a"
      by simp
    from Cons.IH [OF r Cons.prems(2) i] show ?thesis .
  qed
qed

text \<open>A first loop that runs to its end after a whole-hash load had a non-empty reply.\<close>

lemma checkLoop_reply:
  assumes "checkLoop now redis g gAt allowed atc s = Inr s'"
      and "HGETALL \<in> set (calls s') "
      and "HGETALL \<in> set (calls s) \<longrightarrow> redis \<noteq> []"
  shows "redis \<noteq> []"
  using assms
proof (induction atc arbitrary: s)
  case Nil
  then show ?case by auto
next
  case (Cons kq rest)
  let ?L = "checkLoop now redis g gAt allowed (kq # rest) s"
  let ?reload = "\<lparr>assets = assetValueObject now redis, assetsCheckedAt = now\<rparr>"
  from checkLoop_step [of now redis g gAt allowed kq rest s] Cons.prems(1)
  consider
      (on) t where "?L = checkLoop now redis g gAt allowed rest t" "calls t = calls s"
    | (loaded) "redis \<noteq> []"
    by auto
  then show ?case
  proof cases
    case on
    with Cons.prems have "checkLoop now redis g gAt allowed rest t = Inr s'"
      "HGETALL \<in> set (calls t) \<longrightarrow> redis \<noteq> []"
      by simp_all
    from Cons.IH [OF this(1) Cons.prems(2) this(2)] show ?thesis .
  next
    case loaded
    then show ?thesis .
  qed
qed

lemma refreshLoop_other:
  "k \<notin> fst ` set ups \<Longrightarrow> fst (refreshLoop now atc ups g acc) k = g k"
  by (induction now atc ups g acc rule: refreshLoop.induct) (auto split: option.splits)

lemma refreshLoop_all:
  "\<forall>(k, reply) \<in> set ups. reply = map_of redis k \<and> reply \<noteq> None \<Longrightarrow>
   snd (refreshLoop now atc ups g acc) \<noteq> None \<and>
   (\<forall>k p. k \<in> fst ` set ups \<and> map_of redis k = Some p \<longrightarrow>
      fst (refreshLoop now atc ups g acc) k = Some \<lparr>unitValue = p, updatedAt = now\<rparr>)"
proof (induction ups arbitrary: g acc)
  case Nil
  then show ?case by simp
next
  case (Cons u ups)
  obtain key reply where u: "u = (key, reply)" by (cases u)
  from Cons.prems u obtain v where v: "reply = Some v" "map_of redis key = Some v"
    by auto
  define g' where "g' = g(key \<mapsto> \<lparr>unitValue = v, updatedAt = now\<rparr>)"
  define acc' where "acc' = acc + v * quantityOf atc key"
  from Cons.prems have rest: "\<forall>(k, reply) \<in> set ups. reply = map_of redis k \<and> reply \<noteq> None"
    by simp
  note IH = Cons.IH [OF rest, of g' acc']
  have step: "refreshLoop now atc (u # ups) g acc = refreshLoop now atc ups g' acc'"
    using u v by (simp add: g'_def acc'_def)
  have key: "g' key = Some \<lparr>unitValue = v, updatedAt = now\<rparr>"
    by (simp add: g'_def)
  show ?case
  proof (intro conjI allI impI)
    show "snd (refreshLoop now atc (u # ups) g acc) \<noteq> None"
      using IH unfolding step by blast
  next
    fix k p
    assume kp: "k \<in> fst ` set (u # ups) \<and> map_of redis k = Some p"
    show "fst (refreshLoop now atc (u # ups) g acc) k = Some \<lparr>unitValue = p, updatedAt = now\<rparr>"
    proof (cases "k \<in> fst ` set ups")
      case True
      with IH kp show ?thesis unfolding step by blast
    next
      case False
      with kp u have "k = key" by auto
      with kp v key show ?thesis
        unfolding step using refreshLoop_other [OF False, of now atc g' acc'] by simp
    qed
  qed
qed

lemma validateAssets_Inl:
  assumes "checkLoop now redis (assets a) (assetsCheckedAt a) allowed atc
             \<lparr>totalCollateral = 0, totalNaN = False, outdatedAssets = [], appNow = a,
              replaced = False, calls = []\<rparr> = Inl s'"
  shows "validateAssets now redis a atc allowed =
           \<lparr>returned = - 1, returnedNaN = False, appAfter = appNow s', redisCalls = calls s'\<rparr>"
  using assms by (simp add: validateAssets_def)

lemma validateAssets_Inr:
  assumes "checkLoop now redis (assets a) (assetsCheckedAt a) allowed atc
             \<lparr>totalCollateral = 0, totalNaN = False, outdatedAssets = [], appNow = a,
              replaced = False, calls = []\<rparr> = Inr s'"
  shows "outdatedAssets s' = staleKeys now (assets a) atc"
    and "staleKeys now (assets a) atc = [] \<Longrightarrow>
         redisCalls (validateAssets now redis a atc allowed) = calls s' \<and>
         appAfter (validateAssets now redis a atc allowed) = appNow s'"
    and "staleKeys now (assets a) atc \<noteq> [] \<Longrightarrow>
         redisCalls (validateAssets now redis a atc allowed)
           = calls s' @ [HMGET (staleKeys now (assets a) atc)] \<and>
         appAfter (validateAssets now redis a atc allowed)
           = (if replaced s' then appNow s'
              else (appNow s')\<lparr>assets :=
                     fst (refreshLoop now atc
                            (map (\<lambda>k. (k, map_of redis k)) (staleKeys now (assets a) atc))
                            (assets a) (totalCollateral s'))\<rparr>)"
proof -
  from checkLoop_outdated [OF assms] show o: "outdatedAssets s' = staleKeys now (assets a) atc"
    by simp
  show "staleKeys now (assets a) atc = [] \<Longrightarrow>
         redisCalls (validateAssets now redis a atc allowed) = calls s' \<and>
         appAfter (validateAssets now redis a atc allowed) = appNow s'"
    using assms o by (simp add: validateAssets_def)
  show "staleKeys now (assets a) atc \<noteq> [] \<Longrightarrow>
         redisCalls (validateAssets now redis a atc allowed)
           = calls s' @ [HMGET (staleKeys now (assets a) atc)] \<and>
         appAfter (validateAssets now redis a atc allowed)
           = (if replaced s' then appNow s'
              else (appNow s')\<lparr>assets :=
                     fst (refreshLoop now atc
                            (map (\<lambda>k. (k, map_of redis k)) (staleKeys now (assets a) atc))
                            (assets a) (totalCollateral s'))\<rparr>)"
    using assms o by (simp add: validateAssets_def Let_def case_prod_beta)
qed

lemma validateAssets_refreshed:
  "refreshedKeys (redisCalls (validateAssets now redis a atc allowed)) =
     (if list_all (acceptable now redis a allowed) atc then staleKeys now (assets a) atc else [])"
proof -
  let ?s0 = "\<lparr>totalCollateral = 0, totalNaN = False, outdatedAssets = [], appNow = a,
              replaced = False, calls = []\<rparr>"
  let ?res = "checkLoop now redis (assets a) (assetsCheckedAt a) allowed atc ?s0"
  note acc = checkLoop_accepts [of now redis a allowed atc ?s0]
  show ?thesis
  proof (cases ?res)
    case (Inl s')
    with checkLoop_calls [of now redis "assets a" "assetsCheckedAt a" allowed atc ?s0 ?res s'] acc
    show ?thesis by (simp add: validateAssets_Inl [OF Inl])
  next
    case (Inr s')
    from checkLoop_calls [of now redis "assets a" "assetsCheckedAt a" allowed atc ?s0 ?res s'] Inr
    have c: "refreshedKeys (calls s') = []" by simp
    from Inr acc have a: "list_all (acceptable now redis a allowed) atc" by simp
    show ?thesis
      using validateAssets_Inr(2,3) [OF Inr] a c
      by (cases "staleKeys now (assets a) atc = []") (simp_all add: refreshedKeys_append)
  qed
qed

lemma validateAssets_rejected:
  assumes "\<not> list_all (acceptable now redis a allowed) atc"
  shows "returned (validateAssets now redis a atc allowed) = - 1"
proof -
  let ?s0 = "\<lparr>totalCollateral = 0, totalNaN = False, outdatedAssets = [], appNow = a,
              replaced = False, calls = []\<rparr>"
  let ?res = "checkLoop now redis (assets a) (assetsCheckedAt a) allowed atc ?s0"
  from assms checkLoop_accepts [of now redis a allowed atc ?s0]
  obtain s' where "?res = Inl s'" by (cases ?res) simp_all
  from validateAssets_Inl [OF this] show ?thesis by simp
qed

lemma validateAssets_HGETALL:
  assumes "HGETALL \<in> set (redisCalls (validateAssets now redis a atc allowed))"
  shows "assetsCheckedAt a < now - thirtyMinutes * 2 \<and>
         (\<exists>k \<in> fst ` set atc. assets a k = None \<and> k \<noteq> ''stelo'' \<and> k \<notin> set inheritedKeys)"
proof -
  let ?s0 = "\<lparr>totalCollateral = 0, totalNaN = False, outdatedAssets = [], appNow = a,
              replaced = False, calls = []\<rparr>"
  let ?res = "checkLoop now redis (assets a) (assetsCheckedAt a) allowed atc ?s0"
  obtain s' where s': "(case ?res of Inl s' \<Rightarrow> s' | Inr s' \<Rightarrow> s') = s'" by simp
  have "HGETALL \<in> set (calls s')"
  proof (cases ?res)
    case (Inl t)
    with assms s' show ?thesis by (simp add: validateAssets_Inl [OF Inl])
  next
    case (Inr t)
    with assms s' validateAssets_Inr(2,3) [OF Inr] show ?thesis
      by (cases "staleKeys now (assets a) atc = []") auto
  qed
  with checkLoop_calls [OF refl s'] show ?thesis by simp
qed

lemma validateAssets_known_fresh:
  assumes "\<forall>k \<in> fst ` set atc. \<exists>e. assets a k = Some e \<and> \<not> stale now e"
  shows "redisCalls (validateAssets now redis a atc allowed) = []"
proof -
  let ?s0 = "\<lparr>totalCollateral = 0, totalNaN = False, outdatedAssets = [], appNow = a,
              replaced = False, calls = []\<rparr>"
  let ?res = "checkLoop now redis (assets a) (assetsCheckedAt a) allowed atc ?s0"
  obtain s' where s': "(case ?res of Inl s' \<Rightarrow> s' | Inr s' \<Rightarrow> s') = s'" by simp
  from assms have known: "\<forall>k \<in> fst ` set atc. assets a k \<noteq> None" by auto
  have c: "calls s' = []" using checkLoop_known [OF refl s' known] by simp
  from assms have st: "staleKeys now (assets a) atc = []"
    by (auto simp: staleKeys_def filter_empty_conv)
  show ?thesis
  proof (cases ?res)
    case (Inl t)
    with c s' show ?thesis by (simp add: validateAssets_Inl [OF Inl])
  next
    case (Inr t)
    with c s' validateAssets_Inr(2) [OF Inr st] show ?thesis by simp
  qed
qed

text \<open>The settings after a call that sent no whole-hash load: only fetched entries differ.\<close>

lemma validateAssets_untouched:
  assumes "HGETALL \<notin> set (redisCalls (validateAssets now redis a atc allowed))"
  shows "assetsCheckedAt (appAfter (validateAssets now redis a atc allowed)) = assetsCheckedAt a"
    and "k \<notin> set (refreshedKeys (redisCalls (validateAssets now redis a atc allowed))) \<Longrightarrow>
         assets (appAfter (validateAssets now redis a atc allowed)) k = assets a k"
proof -
  let ?s0 = "\<lparr>totalCollateral = 0, totalNaN = False, outdatedAssets = [], appNow = a,
              replaced = False, calls = []\<rparr>"
  let ?res = "checkLoop now redis (assets a) (assetsCheckedAt a) allowed atc ?s0"
  let ?v = "validateAssets now redis a atc allowed"
  obtain s' where s': "(case ?res of Inl s' \<Rightarrow> s' | Inr s' \<Rightarrow> s') = s'" by simp
  note app = checkLoop_app [OF refl s', of a]
  note cs = checkLoop_calls [OF refl s']
  have both: "assetsCheckedAt (appAfter ?v) = assetsCheckedAt a \<and>
        (k \<notin> set (refreshedKeys (redisCalls ?v)) \<longrightarrow> assets (appAfter ?v) k = assets a k)"
  proof (cases ?res)
    case (Inl t)
    with assms s' app show ?thesis by (simp add: validateAssets_Inl [OF Inl])
  next
    case (Inr t)
    show ?thesis
    proof (cases "staleKeys now (assets a) atc = []")
      case True
      with assms s' app Inr validateAssets_Inr(2) [OF Inr True] show ?thesis by simp
    next
      case False
      note v = validateAssets_Inr(3) [OF Inr False]
      from assms v Inr s' have no: "HGETALL \<notin> set (calls s')" by simp
      with app have n: "\<not> replaced s'" "appNow s' = a" by simp_all
      from cs Inr s' have "refreshedKeys (calls t) = []" by simp
      with v have rk: "refreshedKeys (redisCalls ?v) = staleKeys now (assets a) atc"
        by (simp add: refreshedKeys_append)
      have "assets (appAfter ?v) k = assets a k" if "k \<notin> set (staleKeys now (assets a) atc)"
      proof -
        from that have "k \<notin> fst ` set (map (\<lambda>k. (k, map_of redis k)) (staleKeys now (assets a) atc))"
          by (simp add: image_image)
        from refreshLoop_other [OF this] v n Inr s' show ?thesis by simp
      qed
      with v n Inr s' rk show ?thesis by simp
    qed
  qed
  from both show "assetsCheckedAt (appAfter ?v) = assetsCheckedAt a" by simp
  from both show "k \<notin> set (refreshedKeys (redisCalls ?v)) \<Longrightarrow> assets (appAfter ?v) k = assets a k"
    by simp
qed

text \<open>The settings after a call that sent a whole-hash load.\<close>

lemma validateAssets_reload:
  assumes "HGETALL \<in> set (redisCalls (validateAssets now redis a atc allowed))"
  shows "appAfter (validateAssets now redis a atc allowed) =
           (if redis = [] then a
            else \<lparr>assets = assetValueObject now redis, assetsCheckedAt = now\<rparr>)"
proof -
  let ?s0 = "\<lparr>totalCollateral = 0, totalNaN = False, outdatedAssets = [], appNow = a,
              replaced = False, calls = []\<rparr>"
  let ?res = "checkLoop now redis (assets a) (assetsCheckedAt a) allowed atc ?s0"
  let ?v = "validateAssets now redis a atc allowed"
  obtain s' where s': "(case ?res of Inl s' \<Rightarrow> s' | Inr s' \<Rightarrow> s') = s'" by simp
  note app = checkLoop_app [OF refl s', of a]
  show ?thesis
  proof (cases ?res)
    case (Inl t)
    with assms s' app show ?thesis by (simp add: validateAssets_Inl [OF Inl] split: if_splits)
  next
    case (Inr t)
    have h: "HGETALL \<in> set (calls t)"
      using assms validateAssets_Inr(2,3) [OF Inr]
      by (cases "staleKeys now (assets a) atc = []") auto
    from checkLoop_reply [OF Inr h] have ne: "redis \<noteq> []" by simp
    with h app Inr s' have r: "replaced t"
      "appNow t = \<lparr>assets = assetValueObject now redis, assetsCheckedAt = now\<rparr>"
      by simp_all
    with ne validateAssets_Inr(2,3) [OF Inr] show ?thesis
      by (cases "staleKeys now (assets a) atc = []") simp_all
  qed
qed

text \<open>
  The settings after a call whose first loop ran to its end and whose stale symbols the
  price source all has: each of them holds the price of the source, as of now.
\<close>

lemma validateAssets_refresh_entries:
  assumes acc: "list_all (acceptable now redis a allowed) atc"
      and src: "\<forall>k \<in> set (staleKeys now (assets a) atc). k \<in> dom (map_of redis)"
      and k: "k \<in> set (staleKeys now (assets a) atc)" "map_of redis k = Some p"
  shows "assets (appAfter (validateAssets now redis a atc allowed)) k
           = Some \<lparr>unitValue = p, updatedAt = now\<rparr>"
proof -
  let ?s0 = "\<lparr>totalCollateral = 0, totalNaN = False, outdatedAssets = [], appNow = a,
              replaced = False, calls = []\<rparr>"
  let ?res = "checkLoop now redis (assets a) (assetsCheckedAt a) allowed atc ?s0"
  let ?v = "validateAssets now redis a atc allowed"
  let ?ks = "staleKeys now (assets a) atc"
  from acc checkLoop_accepts [of now redis a allowed atc ?s0]
  obtain s' where Inr: "?res = Inr s'" by (cases ?res) simp_all
  then have s': "(case ?res of Inl s' \<Rightarrow> s' | Inr s' \<Rightarrow> s') = s'" by simp
  note app = checkLoop_app [OF refl s', of a]
  from k have ne: "?ks \<noteq> []" by auto
  note v = validateAssets_Inr(3) [OF Inr ne]
  show ?thesis
  proof (cases "replaced s'")
    case True
    with app have "appNow s' = \<lparr>assets = assetValueObject now redis, assetsCheckedAt = now\<rparr>"
      by (simp split: if_splits)
    with v True k show ?thesis by (simp add: assetValueObject_lookup)
  next
    case False
    from src have "\<forall>(k, reply) \<in> set (map (\<lambda>k. (k, map_of redis k)) ?ks).
                     reply = map_of redis k \<and> reply \<noteq> None"
      by auto
    from refreshLoop_all [OF this, of now atc "assets a" "totalCollateral s'"] k
    have "fst (refreshLoop now atc (map (\<lambda>k. (k, map_of redis k)) ?ks) (assets a)
                 (totalCollateral s')) k = Some \<lparr>unitValue = p, updatedAt = now\<rparr>"
      by (simp add: image_image)
    with v False show ?thesis by simp
  qed
qed

text \<open>
  Claim C7, as the code has it. In every call of \<open>validateAssets\<close>, the price source
  answering every command of the call from one state:

  \<^item> a requested symbol that has an entry in the table is fetched from the price source by
    the targeted \<open>HMGET\<close> exactly when its entry is older than thirty minutes and every
    entry of the request is acceptable to the first loop;
  \<^item> when some entry is not acceptable the call returns -1 and fetches no symbol;
  \<^item> when every entry is acceptable and the price source has every stale requested
    symbol, each of these symbols afterwards holds the price of the source, stamped now;
  \<^item> as long as no whole-hash load \<open>HGETALL\<close> was sent, the timestamp of the table and
    every entry that was not fetched are as before;
  \<^item> \<open>HGETALL\<close> is sent only when the table's timestamp is older than sixty minutes and
    a requested symbol other than \<open>stelo\<close>, and other than an inherited property name,
    is absent from the table; a non-empty reply replaces the whole table, every entry
    stamped now, also when the call then returns -1;
  \<^item> a request whose symbols all have fresh entries sends nothing to the price source.
\<close>

theorem validateAssets_refresh_protocol:
  "(\<forall>k e. k \<in> fst ` set atc \<and> assets a k = Some e \<longrightarrow>
      (k \<in> set (refreshedKeys (redisCalls (validateAssets now redis a atc allowed)))
         \<longleftrightarrow> stale now e \<and> list_all (acceptable now redis a allowed) atc))
   \<and> (\<not> list_all (acceptable now redis a allowed) atc \<longrightarrow>
        returned (validateAssets now redis a atc allowed) = - 1
        \<and> refreshedKeys (redisCalls (validateAssets now redis a atc allowed)) = [])
   \<and> (list_all (acceptable now redis a allowed) atc
        \<and> (\<forall>k \<in> set (staleKeys now (assets a) atc). k \<in> dom (map_of redis)) \<longrightarrow>
        (\<forall>k p. k \<in> set (staleKeys now (assets a) atc) \<and> map_of redis k = Some p \<longrightarrow>
           assets (appAfter (validateAssets now redis a atc allowed)) k
             = Some \<lparr>unitValue = p, updatedAt = now\<rparr>))
   \<and> (HGETALL \<notin> set (redisCalls (validateAssets now redis a atc allowed)) \<longrightarrow>
        assetsCheckedAt (appAfter (validateAssets now redis a atc allowed)) = assetsCheckedAt a
        \<and> (\<forall>k. k \<notin> set (refreshedKeys (redisCalls (validateAssets now redis a atc allowed)))
               \<longrightarrow> assets (appAfter (validateAssets now redis a atc allowed)) k = assets a k))
   \<and> (HGETALL \<in> set (redisCalls (validateAssets now redis a atc allowed)) \<longrightarrow>
        assetsCheckedAt a < now - thirtyMinutes * 2
        \<and> (\<exists>k \<in> fst ` set atc. assets a k = None \<and> k \<noteq> ''stelo'' \<and> k \<notin> set inheritedKeys)
        \<and> appAfter (validateAssets now redis a atc allowed) =
            (if redis = [] then a
             else \<lparr>assets = assetValueObject now redis, assetsCheckedAt = now\<rparr>))
   \<and> ((\<forall>k \<in> fst ` set atc. \<exists>e. assets a k = Some e \<and> \<not> stale now e) \<longrightarrow>
        redisCalls (validateAssets now redis a atc allowed) = [])"
proof -
  let ?v = "validateAssets now redis a atc allowed"
  let ?ok = "list_all (acceptable now redis a allowed) atc"
  have one: "k \<in> set (refreshedKeys (redisCalls ?v)) \<longleftrightarrow> stale now e \<and> ?ok"
    if "k \<in> fst ` set atc \<and> assets a k = Some e" for k e
    using that by (auto simp: validateAssets_refreshed staleKeys_def)
  have two: "returned ?v = - 1 \<and> refreshedKeys (redisCalls ?v) = []" if "\<not> ?ok"
    using that validateAssets_rejected [OF that] by (simp add: validateAssets_refreshed)
  have three: "assets (appAfter ?v) k = Some \<lparr>unitValue = p, updatedAt = now\<rparr>"
    if "?ok \<and> (\<forall>k \<in> set (staleKeys now (assets a) atc). k \<in> dom (map_of redis))"
      and "k \<in> set (staleKeys now (assets a) atc) \<and> map_of redis k = Some p" for k p
    using that validateAssets_refresh_entries [of now redis a allowed atc k p] by blast
  have four: "assetsCheckedAt (appAfter ?v) = assetsCheckedAt a
        \<and> (\<forall>k. k \<notin> set (refreshedKeys (redisCalls ?v)) \<longrightarrow> assets (appAfter ?v) k = assets a k)"
    if "HGETALL \<notin> set (redisCalls ?v)"
    using validateAssets_untouched [OF that] by blast
  have five: "assetsCheckedAt a < now - thirtyMinutes * 2
        \<and> (\<exists>k \<in> fst ` set atc. assets a k = None \<and> k \<noteq> ''stelo'' \<and> k \<notin> set inheritedKeys)
        \<and> appAfter ?v = (if redis = [] then a
             else \<lparr>assets = assetValueObject now redis, assetsCheckedAt = now\<rparr>)"
    if "HGETALL \<in> set (redisCalls ?v)"
    using validateAssets_HGETALL [OF that] validateAssets_reload [OF that] by blast
  have six: "redisCalls ?v = []"
    if "\<forall>k \<in> fst ` set atc. \<exists>e. assets a k = Some e \<and> \<not> stale now e"
    using that by (rule validateAssets_known_fresh)
  show ?thesis
    apply (intro conjI allI impI)
    subgoal for k e using one [of k e] by blast
    subgoal using two by blast
    subgoal using two by blast
    subgoal for k p using three [of k p] by blast
    subgoal using four by blast
    subgoal for k using four by blast
    subgoal using five by blast
    subgoal using five by blast
    subgoal using five by blast
    subgoal using six by blast
    done
qed

theorem validateAssets_refresh_protocol_witness:
  "''wood'' \<in> set (refreshedKeys (redisCalls (validateAssets 2000000 sourceExample cacheExample
        [(''iron'', Integer 2), (''wood'', Integer 1)] False)))
   \<and> ''iron'' \<notin> set (refreshedKeys (redisCalls (validateAssets 2000000 sourceExample cacheExample
        [(''iron'', Integer 2), (''wood'', Integer 1)] False)))
   \<and> assets (appAfter (validateAssets 2000000 sourceExample cacheExample
        [(''iron'', Integer 2), (''wood'', Integer 1)] False)) ''wood''
       = Some \<lparr>unitValue = 25, updatedAt = 2000000\<rparr>
   \<and> assets (appAfter (validateAssets 2000000 sourceExample cacheExample
        [(''iron'', Integer 2), (''wood'', Integer 1)] False)) ''iron''
       = Some \<lparr>unitValue = 3, updatedAt = 1900000\<rparr>
   \<and> returned (validateAssets 2000000 sourceExample cacheExample
        [(''wood'', Integer 1), (''gold'', Integer 1)] False) = - 1
   \<and> appAfter (validateAssets 6000000 sourceExample cacheExample
        [(''wood'', Integer 1), (''gold'', Integer 1)] False)
       = \<lparr>assets = assetValueObject 6000000 sourceExample, assetsCheckedAt = 6000000\<rparr>
   \<and> redisCalls (validateAssets 2000000 sourceExample cacheExample
        [(''iron'', Integer 2)] False) = []"
proof -
  let ?atc = "[(''iron'', Integer 2), (''wood'', Integer 1)]"
  let ?v = "validateAssets 2000000 sourceExample cacheExample ?atc False"
  let ?bad = "[(''wood'', Integer 1), (''gold'', Integer 1)]"
  note t = validateAssets_refresh_protocol [of ?atc cacheExample 2000000 sourceExample False]
  note u = validateAssets_refresh_protocol
             [of "[(''iron'', Integer 2)]" cacheExample 2000000 sourceExample False]
  note b = validateAssets_refresh_protocol [of ?bad cacheExample 2000000 sourceExample False]
  note l = validateAssets_refresh_protocol [of ?bad cacheExample 6000000 sourceExample False]
  have ok: "list_all (acceptable 2000000 sourceExample cacheExample False) ?atc"
    by (simp add: acceptable_def cacheExample_def)
  have st: "staleKeys 2000000 (assets cacheExample) ?atc = [''wood'']"
    by (simp add: staleKeys_def stale_def cacheExample_def thirtyMinutes_def)
  from t have each: "k \<in> set (refreshedKeys (redisCalls ?v))
         \<longleftrightarrow> stale 2000000 e \<and> list_all (acceptable 2000000 sourceExample cacheExample False) ?atc"
    if "k \<in> fst ` set ?atc \<and> assets cacheExample k = Some e" for k e
    using that by blast
  have wood: "''wood'' \<in> set (refreshedKeys (redisCalls ?v))"
    using each [of "''wood''" "\<lparr>unitValue = 20, updatedAt = 0\<rparr>"] ok
    by (simp add: cacheExample_def stale_def thirtyMinutes_def)
  have iron: "''iron'' \<notin> set (refreshedKeys (redisCalls ?v))"
    using each [of "''iron''" "\<lparr>unitValue = 3, updatedAt = 1900000\<rparr>"]
    by (simp add: cacheExample_def stale_def thirtyMinutes_def)
  from t ok st have "\<forall>k p. k \<in> set [''wood''] \<and> map_of sourceExample k = Some p \<longrightarrow>
           assets (appAfter ?v) k = Some \<lparr>unitValue = p, updatedAt = 2000000\<rparr>"
    by (simp add: sourceExample_def)
  then have price: "assets (appAfter ?v) ''wood'' = Some \<lparr>unitValue = 25, updatedAt = 2000000\<rparr>"
    by (simp add: sourceExample_def)
  from t have "HGETALL \<notin> set (redisCalls ?v)"
    by (auto simp: cacheExample_def thirtyMinutes_def)
  with t iron have "assets (appAfter ?v) ''iron'' = assets cacheExample ''iron''"
    by blast
  then have kept: "assets (appAfter ?v) ''iron'' = Some \<lparr>unitValue = 3, updatedAt = 1900000\<rparr>"
    by (simp add: cacheExample_def)
  have "\<not> list_all (acceptable 2000000 sourceExample cacheExample False) ?bad"
    by (simp add: acceptable_def cacheExample_def sourceExample_def inheritedKeys_def
          thirtyMinutes_def)
  with b have rejected: "returned (validateAssets 2000000 sourceExample cacheExample ?bad False) = - 1"
    by blast
  have "HGETALL \<in> set (redisCalls (validateAssets 6000000 sourceExample cacheExample ?bad False))"
    by (simp add: validateAssets_def cacheExample_def sourceExample_def inheritedKeys_def
          thirtyMinutes_def)
  with l have loaded: "appAfter (validateAssets 6000000 sourceExample cacheExample ?bad False)
       = \<lparr>assets = assetValueObject 6000000 sourceExample, assetsCheckedAt = 6000000\<rparr>"
    by (simp add: sourceExample_def)
  have none: "redisCalls (validateAssets 2000000 sourceExample cacheExample
        [(''iron'', Integer 2)] False) = []"
    using u by (simp add: cacheExample_def stale_def thirtyMinutes_def)
  from wood iron price kept rejected loaded none show ?thesis by simp
qed

text \<open>
  The claim as stated fails: at time 2000000 the wood entry is stale and requested, but
  the request also names gold, which the table does not know while the table itself is
  fresh. The call returns -1 at gold; nothing is sent to the price source and the wood
  entry stays as it was.
\<close>

theorem validateAssets_stale_not_refreshed_counterexample:
  "stale 2000000 \<lparr>unitValue = 20, updatedAt = 0\<rparr>
   \<and> assets cacheExample ''wood'' = Some \<lparr>unitValue = 20, updatedAt = 0\<rparr>
   \<and> redisCalls (validateAssets 2000000 sourceExample cacheExample
         [(''wood'', Integer 1), (''gold'', Integer 1)] False) = []
   \<and> returned (validateAssets 2000000 sourceExample cacheExample
         [(''wood'', Integer 1), (''gold'', Integer 1)] False) = - 1
   \<and> appAfter (validateAssets 2000000 sourceExample cacheExample
         [(''wood'', Integer 1), (''gold'', Integer 1)] False) = cacheExample"
  by (simp add: validateAssets_def cacheExample_def thirtyMinutes_def stale_def inheritedKeys_def)

text \<open>
  A request naming \<open>toString\<close> beside the stale wood is acceptable to the first loop:
  wood is fetched and the call returns \<open>NaN\<close>, which is not below 0.
\<close>

lemma validateAssets_inherited_key_example:
  "redisCalls (validateAssets 2000000 sourceExample cacheExample
         [(''wood'', Integer 1), (''toString'', Integer 1)] False) = [HMGET [''wood'']]
   \<and> returnedNaN (validateAssets 2000000 sourceExample cacheExample
         [(''wood'', Integer 1), (''toString'', Integer 1)] False)
   \<and> \<not> returned (validateAssets 2000000 sourceExample cacheExample
         [(''wood'', Integer 1), (''toString'', Integer 1)] False) < 0
   \<and> list_all (acceptable 2000000 sourceExample cacheExample False)
         [(''wood'', Integer 1), (''toString'', Integer 1)]"
  by (simp add: validateAssets_def cacheExample_def sourceExample_def thirtyMinutes_def
        inheritedKeys_def acceptable_def)

section \<open>Properties of collections\<close>

lemma updateFirst_none: "find P xs = None \<Longrightarrow> updateFirst P f xs = xs"
  by (induction xs) (auto split: if_splits)

lemma map_updateFirst:
  "(\<And>y. oid (f y) = oid y) \<Longrightarrow> map oid (updateFirst P f xs) = map oid xs"
  by (induction xs) auto

lemma find_in_set: "find P xs = Some x \<Longrightarrow> x \<in> set xs \<and> P x"
  by (induction xs) (auto split: if_splits)

lemma find_id_updateFirst:
  assumes "distinct (map oid xs)" and "\<And>y. oid (f y) = oid y"
  shows "find (\<lambda>y. oid y = i) (updateFirst P f xs) =
           (case find P xs of
              Some x \<Rightarrow> if oid x = i then Some (f x) else find (\<lambda>y. oid y = i) xs
            | None \<Rightarrow> find (\<lambda>y. oid y = i) xs)"
  using assms(1)
proof (induction xs)
  case Nil
  then show ?case by simp
next
  case (Cons x xs)
  show ?case
  proof (cases "P x")
    case True
    with assms(2) show ?thesis by simp
  next
    case False
    from Cons.prems have d: "distinct (map oid xs)" and x: "oid x \<notin> oid ` set xs" by simp_all
    show ?thesis
    proof (cases "find P xs")
      case None
      with False Cons.IH [OF d] show ?thesis by simp
    next
      case (Some y)
      with find_in_set [of P xs y] x have "oid y \<noteq> oid x" by (metis imageI)
      with False Some Cons.IH [OF d] show ?thesis by auto
    qed
  qed
qed

lemma find_id_conj:
  assumes "distinct (map oid xs)"
  shows "find (\<lambda>y. oid y = i \<and> Q y) xs =
           (case find (\<lambda>y. oid y = i) xs of
              Some x \<Rightarrow> if Q x then Some x else None
            | None \<Rightarrow> None)"
  using assms
proof (induction xs)
  case Nil
  then show ?case by simp
next
  case (Cons x xs)
  from Cons.prems have d: "distinct (map oid xs)" and x: "oid x \<notin> oid ` set xs" by simp_all
  show ?case
  proof (cases "oid x = i")
    case True
    from x have "\<And>y. y \<in> set xs \<Longrightarrow> oid y \<noteq> oid x" by (metis imageI)
    with True have "find (\<lambda>y. oid y = i) xs = None" "find (\<lambda>y. oid y = i \<and> Q y) xs = None"
      unfolding find_None_iff by metis+
    with True show ?thesis by simp
  next
    case False
    with Cons.IH [OF d] show ?thesis by simp
  qed
qed

lemma find_id_deleteFirst:
  assumes "distinct (map oid xs)"
  shows "find (\<lambda>y. oid y = i) (deleteFirst P xs) =
           (case find P xs of
              Some x \<Rightarrow> if oid x = i then None else find (\<lambda>y. oid y = i) xs
            | None \<Rightarrow> find (\<lambda>y. oid y = i) xs)"
  using assms
proof (induction xs)
  case Nil
  then show ?case by simp
next
  case (Cons x xs)
  show ?case
  proof (cases "P x")
    case True
    from Cons.prems have "\<And>y. y \<in> set xs \<Longrightarrow> oid y \<noteq> oid x" by (metis distinct.simps(2) imageI list.simps(9) set_map)
    then have "oid x = i \<Longrightarrow> find (\<lambda>y. oid y = i) xs = None"
      unfolding find_None_iff by metis
    with True show ?thesis by simp
  next
    case False
    from Cons.prems have d: "distinct (map oid xs)" and x: "oid x \<notin> oid ` set xs" by simp_all
    show ?thesis
    proof (cases "find P xs")
      case None
      with False Cons.IH [OF d] show ?thesis by simp
    next
      case (Some y)
      with find_in_set [of P xs y] x have "oid y \<noteq> oid x" by (metis imageI)
      with False Some Cons.IH [OF d] show ?thesis by auto
    qed
  qed
qed

section \<open>Properties of the peer transaction\<close>

lemmas peer_examples = peerServer_def alice_def bob_def shop_def aliceSession_def shopSession_def
  envWebhookDown_def envWebhookUp_def

text \<open>
  Past the two validations the handler is the transaction followed by the choice of the
  response.
\<close>

lemma postTransaction_reaches:
  assumes "txAssets r \<noteq> []"
      and "0 \<le> returned (validateAssets (dateNow e) (priceSource e) (appState srv) (txAssets r) True)"
  shows "postTransaction e s r srv =
           (let v = validateAssets (dateNow e) (priceSource e) (appState srv) (txAssets r) True;
                (flags, ws) = withTransaction (wallets (database srv))
                                (transactionCallback e s r (wallets (database srv)))
            in (transactionResponse flags,
                srv\<lparr>appState := appAfter v, database := (database srv)\<lparr>wallets := ws\<rparr>\<rparr>))"
  using assms by (simp add: postTransaction_def Let_def split: prod.splits)

text \<open>
  Claim C4. When the recipient of a peer transaction has a webhook and the POST to it
  is answered with a status outside 2xx, fails in transport or times out, the handler
  answers W0004 (the webhook-failure error) and the database is what it was before the
  request: no balance of the sender, of the recipient or of anyone else has changed.
\<close>

theorem webhook_failure_aborts:
  assumes "txAssets r \<noteq> []"
      and "0 \<le> returned (validateAssets (dateNow e) (priceSource e) (appState srv) (txAssets r) True)"
      and "find (recipientFilter (recipient r)) (wallets (database srv)) = Some rcp"
      and "webhook rcp = Some url" and "url \<noteq> []"
      and "axiosPost e url \<in> {NonSuccessStatus, TransportError, TimedOut}"
  shows "fst (postTransaction e s r srv) = W0004 \<and>
         database (snd (postTransaction e s r srv)) = database srv"
proof -
  from assms(3-6) have "transactionCallback e s r (wallets (database srv)) =
      (\<lparr>hasFunds = True, recipientFound = True, webhookFailed = True\<rparr>, None)"
    by (auto simp: transactionCallback_def Let_def)
  then show ?thesis
    by (simp add: postTransaction_reaches [OF assms(1,2)] withTransaction_def
          transactionResponse_def)
qed

text \<open>The callback leaves one of four combinations of flags.\<close>

lemma transactionCallback_flags:
  "fst (transactionCallback e s r ws) \<in>
     {\<lparr>hasFunds = True, recipientFound = True, webhookFailed = False\<rparr>,
      \<lparr>hasFunds = False, recipientFound = True, webhookFailed = False\<rparr>,
      \<lparr>hasFunds = True, recipientFound = False, webhookFailed = False\<rparr>,
      \<lparr>hasFunds = True, recipientFound = True, webhookFailed = True\<rparr>}"
  by (simp add: transactionCallback_def Let_def split: option.splits)

text \<open>
  Claim C8. For every peer transaction that reaches the transaction, the response follows
  the flags the callback recorded in the order insufficient funds (W0002), recipient not
  found (W0003), webhook failure (W0004), and at most one of the three conditions is
  recorded in one execution.
\<close>

theorem error_priority:
  assumes "txAssets r \<noteq> []"
      and "0 \<le> returned (validateAssets (dateNow e) (priceSource e) (appState srv) (txAssets r) True)"
  shows "let flags = fst (transactionCallback e s r (wallets (database srv)));
             reported = fst (postTransaction e s r srv)
         in (\<not> hasFunds flags \<longrightarrow> reported = W0002)
          \<and> (hasFunds flags \<and> \<not> recipientFound flags \<longrightarrow> reported = W0003)
          \<and> (hasFunds flags \<and> recipientFound flags \<and> webhookFailed flags \<longrightarrow> reported = W0004)
          \<and> (hasFunds flags \<and> recipientFound flags \<and> \<not> webhookFailed flags \<longrightarrow> reported = Success)
          \<and> length (filter id [\<not> hasFunds flags, \<not> recipientFound flags, webhookFailed flags]) \<le> 1"
proof -
  have r: "fst (postTransaction e s r srv) =
             transactionResponse (fst (transactionCallback e s r (wallets (database srv))))"
    by (simp add: postTransaction_reaches [OF assms] withTransaction_def Let_def
             split: prod.splits option.splits)
  from transactionCallback_flags [of e s r "wallets (database srv)"] show ?thesis
    unfolding Let_def r by (auto simp: transactionResponse_def)
qed


theorem webhook_failure_aborts_witness:
  "fst (postTransaction envWebhookDown aliceSession
          \<lparr>recipient = ''#shop'', txAssets = [(''gold'', Integer 5)]\<rparr> peerServer) = W0004
   \<and> database (snd (postTransaction envWebhookDown aliceSession
          \<lparr>recipient = ''#shop'', txAssets = [(''gold'', Integer 5)]\<rparr> peerServer))
       = database peerServer"
proof -
  let ?r = "\<lparr>recipient = ''#shop'', txAssets = [(''gold'', Integer 5)]\<rparr>"
  have 1: "txAssets ?r \<noteq> []" by simp
  have 2: "0 \<le> returned (validateAssets (dateNow envWebhookDown) (priceSource envWebhookDown)
                   (appState peerServer) (txAssets ?r) True)"
    by (simp add: validateAssets_def peer_examples thirtyMinutes_def)
  have 3: "find (recipientFilter (recipient ?r)) (wallets (database peerServer)) = Some shop"
    by (simp add: recipientFilter_def toLowerCase_def peer_examples)
  have 4: "webhook shop = Some ''https://shop.example/hook''" by (simp add: shop_def)
  have 5: "''https://shop.example/hook'' \<noteq> []" by simp
  have 6: "axiosPost envWebhookDown ''https://shop.example/hook''
             \<in> {NonSuccessStatus, TransportError, TimedOut}"
    by (simp add: envWebhookDown_def)
  from webhook_failure_aborts [OF 1 2 3 4 5 6, of aliceSession] show ?thesis .
qed

theorem error_priority_witness:
  "fst (postTransaction envWebhookUp aliceSession
          \<lparr>recipient = ''bob'', txAssets = [(''gold'', Integer 11)]\<rparr> peerServer) = W0002
   \<and> fst (postTransaction envWebhookUp aliceSession
          \<lparr>recipient = ''carol'', txAssets = [(''gold'', Integer 11)]\<rparr> peerServer) = W0003
   \<and> fst (postTransaction envWebhookDown aliceSession
          \<lparr>recipient = ''#shop'', txAssets = [(''gold'', Integer 11)]\<rparr> peerServer) = W0004
   \<and> fst (postTransaction envWebhookUp aliceSession
          \<lparr>recipient = ''bob'', txAssets = [(''gold'', Integer 5)]\<rparr> peerServer) = Success"
proof -
  have v: "0 \<le> returned (validateAssets 1000 [] (appState peerServer) [(''gold'', Integer n)] True)"
    if "1 \<le> n" for n
    using that by (simp add: validateAssets_def peer_examples thirtyMinutes_def)
  have a: "fst (postTransaction envWebhookUp aliceSession
          \<lparr>recipient = ''bob'', txAssets = [(''gold'', Integer 11)]\<rparr> peerServer) = W0002"
    using error_priority [of "\<lparr>recipient = ''bob'', txAssets = [(''gold'', Integer 11)]\<rparr>"
        envWebhookUp peerServer aliceSession] v [of 11]
    by (simp add: Let_def transactionCallback_def recipientFilter_def senderFilter_def
          gteAssets_def amounts_def applyToWallet_def incAsset_def peer_examples)
  have b: "fst (postTransaction envWebhookUp aliceSession
          \<lparr>recipient = ''carol'', txAssets = [(''gold'', Integer 11)]\<rparr> peerServer) = W0003"
    using error_priority [of "\<lparr>recipient = ''carol'', txAssets = [(''gold'', Integer 11)]\<rparr>"
        envWebhookUp peerServer aliceSession] v [of 11]
    by (simp add: Let_def transactionCallback_def recipientFilter_def senderFilter_def
          gteAssets_def amounts_def applyToWallet_def incAsset_def peer_examples)
  have c: "fst (postTransaction envWebhookDown aliceSession
          \<lparr>recipient = ''#shop'', txAssets = [(''gold'', Integer 11)]\<rparr> peerServer) = W0004"
    using error_priority [of "\<lparr>recipient = ''#shop'', txAssets = [(''gold'', Integer 11)]\<rparr>"
        envWebhookDown peerServer aliceSession] v [of 11]
    by (simp add: Let_def transactionCallback_def recipientFilter_def toLowerCase_def senderFilter_def
          gteAssets_def amounts_def applyToWallet_def incAsset_def peer_examples)
  have d: "fst (postTransaction envWebhookUp aliceSession
          \<lparr>recipient = ''bob'', txAssets = [(''gold'', Integer 5)]\<rparr> peerServer) = Success"
    using error_priority [of "\<lparr>recipient = ''bob'', txAssets = [(''gold'', Integer 5)]\<rparr>"
        envWebhookUp peerServer aliceSession] v [of 5]
    by (simp add: Let_def transactionCallback_def recipientFilter_def senderFilter_def
          gteAssets_def amounts_def applyToWallet_def incAsset_def peer_examples)
  from a b c d show ?thesis by simp
qed

section \<open>Properties of increments\<close>









lemma applyToWallet_oid: "walletOid (applyToWallet u w) = walletOid w"
  by (simp add: applyToWallet_def)

lemma applyToWallet_assets:
  "walletAssets (applyToWallet u w) = incAssets (incAssetsBy u) (walletAssets w)"
  by (simp add: applyToWallet_def)






section \<open>Balances under the genesis distribution\<close>

text \<open>
  Claim C3 at a failing input. The distribution branch tests only that the genesis wallet
  holds more than 500 stelo and then takes \<open>freeStelo\<close>, at least 250000000, out of it
  with an unconditioned \<open>$inc\<close>. Approving a user against a genesis wallet of 1000 stelo
  succeeds and leaves that wallet at -249999001 stelo.
\<close>

theorem distribution_overdraws_genesis:
  "fst (putUser \<lparr>approveUsername = ''dave'', registrationCached = True, distribution = True\<rparr>
          (genesisServer 1000)) = Success
   \<and> map (\<lambda>w. (address w, username w, balance (walletAssets w) ''stelo''))
         (wallets (database (snd (putUser
            \<lparr>approveUsername = ''dave'', registrationCached = True, distribution = True\<rparr>
            (genesisServer 1000)))))
       = [(Some ''genesisdistribution'', None, - 249999001),
          (None, Some ''dave'', 250000001)]"
  by (simp add: putUser_def distributionCallback_def withTransaction_def isGenesis_def
        freeStelo_def incStelo_def incAsset_def newUser_def freshOid_def balance_def
        genesisServer_def genesis_def Let_def)

section \<open>Properties of the warehouse transfer\<close>

lemmas trade_examples = tradeServer_def warehouseA_def warehouseB_def carol_def sessionA_def
  sessionB_def envEarly_def envLate_def woodRequest_def woodTransfer_def sentServer_def
  sentTransfer_def

lemmas handler_defs = postWarehouseAssets_def depositCallback_def postTransfer_def
  createCallback_def putTransferStatus_def sentCallback_def receivedCallback_def
  deleteWarehouseAssets_def withdrawHandler_def withdrawCallback_def collateralToReturn_def
  assignedToWarehouse_def assignedQuery_def withTransaction_def transferResponse_def
  requesterAssigned_def returnAssets_def returnCollateral_def applyToWarehouse_def
  applyToWallet_def gteAssets_def amounts_def negated_def incAsset_def freshOid_def
  validateAssets_def quantityOf_def thirtyMinutes_def Let_def

lemma returnAssets_fields:
  "warehouseOid (returnAssets xs w) = warehouseOid w"
  "collateral (returnAssets xs w) = collateral w"
  "collateralAvailable (returnAssets xs w) = collateralAvailable w"
  "warehouseAssets (returnAssets xs w) = incAssets xs (warehouseAssets w)"
  by (simp_all add: returnAssets_def applyToWarehouse_def)

lemma returnCollateral_fields:
  "warehouseOid (returnCollateral c w) = warehouseOid w"
  "collateral (returnCollateral c w) = collateral w"
  "collateralAvailable (returnCollateral c w) = collateralAvailable w + c"
  "warehouseAssets (returnCollateral c w) = warehouseAssets w"
  by (simp_all add: returnCollateral_def)

text \<open>
  Claim C1, as the code has it. For a transfer in status \<open>sent\<close>, the status update to
  \<open>received\<close> by a caller assigned to the receiving warehouse succeeds, deletes the
  transfer record, adds the transfer's assets to the inventory of the receiving warehouse,
  and adds \<open>collateralUsed\<close> to the \<open>collateralAvailable\<close> of the sending warehouse.
  The \<open>collateralAvailable\<close> of the receiving warehouse stays what it was (unless the
  two warehouses are one), and no \<open>collateral\<close> changes.
\<close>

theorem confirm_received:
  assumes wids: "distinct (map warehouseOid (warehouses (database srv)))"
      and tids: "distinct (map transferOid (transfers (database srv)))"
      and t: "transferById tid (transfers (database srv)) = Some t" "status t = Sent"
      and caller: "requesterAssigned s [receivingWarehouse t] (warehouseAccounts (database srv))"
      and R: "warehouseById (receivingWarehouse t) (warehouses (database srv)) = Some R"
      and S: "warehouseById (sendingWarehouse t) (warehouses (database srv)) = Some S"
  shows "fst (putTransferStatus s tid StatusReceived srv) = Success
       \<and> transferById tid
           (transfers (database (snd (putTransferStatus s tid StatusReceived srv)))) = None
       \<and> (\<exists>R'. warehouseById (receivingWarehouse t)
                  (warehouses (database (snd (putTransferStatus s tid StatusReceived srv))))
                  = Some R'
                \<and> warehouseAssets R' = incAssets (transferAssets t) (warehouseAssets R)
                \<and> collateral R' = collateral R
                \<and> (receivingWarehouse t \<noteq> sendingWarehouse t
                     \<longrightarrow> collateralAvailable R' = collateralAvailable R))
       \<and> (\<exists>S'. warehouseById (sendingWarehouse t)
                  (warehouses (database (snd (putTransferStatus s tid StatusReceived srv))))
                  = Some S'
                \<and> collateralAvailable S' = collateralAvailable S + collateralUsed t
                \<and> collateral S' = collateral S)"
proof -
  let ?d = "database srv"
  let ?f = "\<lambda>x. transferOid x = tid \<and> status x = Sent"
  let ?whs1 = "updateFirst (\<lambda>w. warehouseOid w = receivingWarehouse t)
                 (returnAssets (transferAssets t)) (warehouses ?d)"
  let ?whs2 = "updateFirst (\<lambda>w. warehouseOid w = sendingWarehouse t)
                 (returnCollateral (collateralUsed t)) ?whs1"
  have found: "find ?f (transfers ?d) = Some t"
    using find_id_conj [OF tids, of tid "\<lambda>x. status x = Sent"] t
    by (simp add: transferById_def)
  have cb: "receivedCallback s tid ?d =
              (\<lparr>tranferFound = True, assignedToTransfer = True\<rparr>,
               Some (?d\<lparr>transfers := deleteFirst ?f (transfers ?d), warehouses := ?whs2\<rparr>))"
    using found caller by (simp add: receivedCallback_def)
  have gone: "transferById tid (deleteFirst ?f (transfers ?d)) = None"
    using find_id_deleteFirst [OF tids, of tid ?f] found find_in_set [OF found]
    by (simp add: transferById_def)
  have Rid: "warehouseOid R = receivingWarehouse t" and Sid: "warehouseOid S = sendingWarehouse t"
    using find_in_set [of _ "warehouses ?d"] R S by (auto simp: warehouseById_def)
  have wids1: "distinct (map warehouseOid ?whs1)"
    using wids by (simp add: map_updateFirst returnAssets_fields)
  have at1: "find (\<lambda>y. warehouseOid y = i) ?whs1 =
               (if receivingWarehouse t = i then Some (returnAssets (transferAssets t) R)
                else find (\<lambda>y. warehouseOid y = i) (warehouses ?d))" for i
    using find_id_updateFirst [OF wids, of "returnAssets (transferAssets t)" i
            "\<lambda>w. warehouseOid w = receivingWarehouse t"] R Rid
    by (simp add: warehouseById_def returnAssets_fields)
  have at2: "find (\<lambda>y. warehouseOid y = i) ?whs2 =
               (case find (\<lambda>y. warehouseOid y = sendingWarehouse t) ?whs1 of
                  Some x \<Rightarrow> if warehouseOid x = i
                            then Some (returnCollateral (collateralUsed t) x)
                            else find (\<lambda>y. warehouseOid y = i) ?whs1
                | None \<Rightarrow> find (\<lambda>y. warehouseOid y = i) ?whs1)" for i
    using find_id_updateFirst [OF wids1, of "returnCollateral (collateralUsed t)" i
            "\<lambda>w. warehouseOid w = sendingWarehouse t"]
    by (simp add: returnCollateral_fields)
  have same: "receivingWarehouse t = sendingWarehouse t \<Longrightarrow> R = S"
    using R S by simp
  have recv: "\<exists>R'. warehouseById (receivingWarehouse t) ?whs2 = Some R'
                \<and> warehouseAssets R' = incAssets (transferAssets t) (warehouseAssets R)
                \<and> collateral R' = collateral R
                \<and> (receivingWarehouse t \<noteq> sendingWarehouse t
                     \<longrightarrow> collateralAvailable R' = collateralAvailable R)"
    using R S Rid Sid
    by (auto simp: warehouseById_def at2 at1 returnAssets_fields returnCollateral_fields)
  have send: "\<exists>S'. warehouseById (sendingWarehouse t) ?whs2 = Some S'
                \<and> collateralAvailable S' = collateralAvailable S + collateralUsed t
                \<and> collateral S' = collateral S"
    using R S Rid Sid same
    by (auto simp: warehouseById_def at2 at1 returnAssets_fields returnCollateral_fields)
  show ?thesis
    using gone recv send
    by (simp add: putTransferStatus_def cb withTransaction_def transferResponse_def)
qed


text \<open>The example ledger is what the first three requests of the trade produce.\<close>

lemma tradeUntilSent_result: "run tradeUntilSent tradeServer = sentServer"
  by (simp add: tradeUntilSent_def trade_examples handler_defs fun_eq_iff)

theorem confirm_received_witness:
  "fst (putTransferStatus sessionA 1 StatusReceived sentServer) = Success
   \<and> transferById 1
       (transfers (database (snd (putTransferStatus sessionA 1 StatusReceived sentServer)))) = None
   \<and> (\<exists>R'. warehouseById 1
              (warehouses (database (snd (putTransferStatus sessionA 1 StatusReceived sentServer))))
              = Some R'
            \<and> warehouseAssets R' = incAssets [(''wood'', 10)] Map.empty
            \<and> collateral R' = 1000
            \<and> collateralAvailable R' = 800)
   \<and> (\<exists>S'. warehouseById 2
              (warehouses (database (snd (putTransferStatus sessionA 1 StatusReceived sentServer))))
              = Some S'
            \<and> collateralAvailable S' = 200
            \<and> collateral S' = 10)"
proof -
  have 1: "distinct (map warehouseOid (warehouses (database sentServer)))"
    by (simp add: trade_examples)
  have 2: "distinct (map transferOid (transfers (database sentServer)))"
    by (simp add: trade_examples)
  have 3: "transferById 1 (transfers (database sentServer)) = Some sentTransfer"
    by (simp add: transferById_def trade_examples)
  have 4: "status sentTransfer = Sent" by (simp add: sentTransfer_def)
  have 5: "requesterAssigned sessionA [receivingWarehouse sentTransfer]
             (warehouseAccounts (database sentServer))"
    by (simp add: requesterAssigned_def trade_examples)
  have 6: "warehouseById (receivingWarehouse sentTransfer) (warehouses (database sentServer))
             = Some (warehouseA\<lparr>collateralAvailable := 800\<rparr>)"
    by (simp add: warehouseById_def trade_examples)
  have 7: "warehouseById (sendingWarehouse sentTransfer) (warehouses (database sentServer))
             = Some (warehouseB\<lparr>collateralAvailable := 0, warehouseAssets := [''wood'' \<mapsto> 0]\<rparr>)"
    by (simp add: warehouseById_def trade_examples)
  from confirm_received [OF 1 2 3 4 5 6 7] show ?thesis
    by (simp add: sentTransfer_def warehouseA_def warehouseB_def)
qed

text \<open>
  The claim as stated fails: warehouse 1 receives, its \<open>collateralAvailable\<close> is 800
  before the confirmation and 800 after it, while the 200 of \<open>collateralUsed\<close> go to
  warehouse 2, the sender.
\<close>

theorem confirm_received_counterexample:
  "map summary (warehouses (database sentServer)) = [(1, 1000, 800, 0), (2, 10, 0, 0)]
   \<and> map (\<lambda>t. (transferOid t, status t, collateralUsed t, receivingWarehouse t,
                 sendingWarehouse t)) (transfers (database sentServer)) = [(1, Sent, 200, 1, 2)]
   \<and> fst (putTransferStatus sessionA 1 StatusReceived sentServer) = Success
   \<and> map summary
         (warehouses (database (snd (putTransferStatus sessionA 1 StatusReceived sentServer))))
       = [(1, 1000, 800, 10), (2, 10, 200, 0)]"
  by (simp add: summary_def balance_def trade_examples handler_defs)

text \<open>
  Claim C2 at a failing input. Every warehouse of \<open>tradeServer\<close> satisfies the
  collateral bound. After the four requests of \<open>trade\<close> warehouse 2 has 10 collateral
  and 200 of it available: the confirmation adds \<open>collateralUsed\<close>, valued when the
  transfer was created, to the sender without the overflow test the withdrawal has.
\<close>

theorem trade_breaks_collateral_bound:
  "list_all collateralBound (warehouses (database tradeServer))
   \<and> map summary (warehouses (database (run trade tradeServer)))
       = [(1, 1000, 800, 10), (2, 10, 200, 0)]
   \<and> \<not> list_all collateralBound (warehouses (database (run trade tradeServer)))"
  by (simp add: trade_def tradeUntilSent_def summary_def balance_def collateralBound_def
        trade_examples handler_defs)

section \<open>Properties of deposit and withdrawal\<close>

text \<open>The overflow test of the withdrawal, in exact arithmetic.\<close>

lemma collateralToReturn_min:
  "collateralToReturn w v = min v (collateral w - collateralAvailable w)"
  by (simp add: collateralToReturn_def min_def)

lemma applyToWarehouse_fields:
  "warehouseOid (applyToWarehouse u w) = warehouseOid w"
  "collateral (applyToWarehouse u w) = collateral w"
  "collateralAvailable (applyToWarehouse u w) =
     (case incCollateralAvailable u of None \<Rightarrow> collateralAvailable w
      | Some c \<Rightarrow> collateralAvailable w + c)"
  "warehouseAssets (applyToWarehouse u w) = incAssets (incAssetsBy u) (warehouseAssets w)"
  by (simp_all add: applyToWarehouse_def)

lemma find_id_conj_Some:
  assumes "distinct (map oid xs)" and "find (\<lambda>y. oid y = i \<and> Q y) xs = Some x"
  shows "find (\<lambda>y. oid y = i) xs = Some x"
proof (cases "find (\<lambda>y. oid y = i) xs")
  case None
  with find_id_conj [OF assms(1), of i Q] assms(2) show ?thesis by simp
next
  case (Some y)
  with find_id_conj [OF assms(1), of i Q] assms(2) show ?thesis
    by (cases "Q y") simp_all
qed

text \<open>With unique identifiers the middleware leaves the warehouse of the URL in the request.\<close>

lemma assignedToWarehouse_found:
  assumes "distinct (map warehouseOid whs)"
      and "assignedToWarehouse isOwner s wid whs = Inr reqWarehouse"
  shows "warehouseById wid whs = Some reqWarehouse"
proof -
  let ?Q = "\<lambda>w. if isOwner then ownerId w = warehouseAccountId s
                 else warehouseAccountId s \<in> set (workers w) \<or> ownerId w = warehouseAccountId s"
  have q: "assignedQuery isOwner (warehouseAccountId s) wid = (\<lambda>y. warehouseOid y = wid \<and> ?Q y)"
    by (simp add: assignedQuery_def fun_eq_iff)
  from assms(2) have "find (assignedQuery isOwner (warehouseAccountId s) wid) whs
                        = Some reqWarehouse"
    by (simp add: assignedToWarehouse_def split: option.splits)
  then have "find (\<lambda>y. warehouseOid y = wid \<and> ?Q y) whs = Some reqWarehouse"
    by (simp only: q)
  from find_id_conj_Some [OF assms(1) this] show ?thesis
    by (simp add: warehouseById_def)
qed

lemma assignedToWarehouse_error:
  "assignedToWarehouse isOwner s wid whs = Inl err \<Longrightarrow> err \<noteq> Success"
  by (auto simp: assignedToWarehouse_def split: option.splits if_splits)

text \<open>What the withdrawal callback does to the warehouses when it commits.\<close>

lemma withdrawCallback_commit:
  assumes "withdrawCallback wid r toReturn d = (flags, Some d')"
  shows "flags = \<lparr>userHasFunds = True, warehouseHasFunds = True\<rparr>
       \<and> find (\<lambda>w. warehouseOid w = wid \<and> gteAssets (amounts (reqAssets r)) (warehouseAssets w))
            (warehouses d) \<noteq> None
       \<and> find (\<lambda>w. gteAssets (amounts (reqAssets r)) (walletAssets w)
                     \<and> username w = Some (party r)) (wallets d) \<noteq> None
       \<and> warehouses d' =
           updateFirst (\<lambda>w. warehouseOid w = wid
                              \<and> gteAssets (amounts (reqAssets r)) (warehouseAssets w))
             (applyToWarehouse \<lparr>incCollateralAvailable = Some toReturn,
                                incAssetsBy = negated (amounts (reqAssets r))\<rparr>)
             (warehouses d)
       \<and> wallets d' =
           updateFirst (\<lambda>w. gteAssets (amounts (reqAssets r)) (walletAssets w)
                              \<and> username w = Some (party r))
             (applyToWallet \<lparr>incCollateralAvailable = Some toReturn,
                             incAssetsBy = negated (amounts (reqAssets r))\<rparr>)
             (wallets d)"
  using assms by (auto simp: withdrawCallback_def Let_def split: if_splits)

text \<open>The database after the withdrawal handler: untouched, or the callback's commit.\<close>

lemma deleteWarehouseAssets_database:
  "database (snd (deleteWarehouseAssets e s wid r srv)) = database srv
   \<or> (\<exists>reqWarehouse flags d'.
         assignedToWarehouse False s wid (warehouses (database srv)) = Inr reqWarehouse
       \<and> withdrawCallback wid r
            (collateralToReturn reqWarehouse
               (returned (validateAssets (dateNow e) (priceSource e) (appState srv)
                            (reqAssets r) False)))
            (database srv) = (flags, Some d')
       \<and> database (snd (deleteWarehouseAssets e s wid r srv)) = d')"
  by (auto simp: deleteWarehouseAssets_def withdrawHandler_def Let_def withTransaction_def
           split: sum.splits prod.splits option.splits)

lemma deleteWarehouseAssets_success:
  assumes "fst (deleteWarehouseAssets e s wid r srv) = Success"
  shows "\<exists>reqWarehouse flags d'.
         assignedToWarehouse False s wid (warehouses (database srv)) = Inr reqWarehouse
       \<and> withdrawCallback wid r
            (collateralToReturn reqWarehouse
               (returned (validateAssets (dateNow e) (priceSource e) (appState srv)
                            (reqAssets r) False)))
            (database srv) = (flags, Some d')
       \<and> database (snd (deleteWarehouseAssets e s wid r srv)) = d'"
  using assms
  by (auto simp: deleteWarehouseAssets_def withdrawHandler_def Let_def withTransaction_def withdrawCallback_def
           dest: assignedToWarehouse_error
           split: sum.splits prod.splits option.splits if_splits)


text \<open>The warehouse of the URL after a committed withdrawal.\<close>

lemma withdrawal_commit_warehouse:
  assumes ids: "distinct (map warehouseOid (warehouses d))"
      and wh: "warehouseById wid (warehouses d) = Some w"
      and cb: "withdrawCallback wid r toReturn d = (flags, Some d')"
  shows "warehouseById wid (warehouses d') =
           Some (applyToWarehouse \<lparr>incCollateralAvailable = Some toReturn,
                                   incAssetsBy = negated (amounts (reqAssets r))\<rparr> w)"
proof -
  let ?f = "\<lambda>w. warehouseOid w = wid \<and> gteAssets (amounts (reqAssets r)) (warehouseAssets w)"
  let ?u = "applyToWarehouse \<lparr>incCollateralAvailable = Some toReturn,
                               incAssetsBy = negated (amounts (reqAssets r))\<rparr>"
  from withdrawCallback_commit [OF cb] obtain x where
    x: "find ?f (warehouses d) = Some x" and d': "warehouses d' = updateFirst ?f ?u (warehouses d)"
    by auto
  from find_id_conj_Some [OF ids x] wh have "x = w" by (simp add: warehouseById_def)
  moreover from find_in_set [OF x] have "warehouseOid x = wid" by simp
  ultimately show ?thesis
    using find_id_updateFirst [OF ids, of ?u wid ?f] x
    by (simp add: warehouseById_def d' applyToWarehouse_fields)
qed

text \<open>
  A withdrawal that no other request overlaps, so that the warehouse the middleware read
  is the warehouse the transaction updates. From a warehouse whose \<open>collateralAvailable\<close>
  does not exceed its \<open>collateral\<close> it leaves it so: \<open>collateral\<close> is unchanged, and
  when the withdrawal succeeds \<open>collateralAvailable\<close> has grown by the value of the
  withdrawn assets, cut down to the locked part \<open>collateral - collateralAvailable\<close>
  where it would go over.
\<close>

lemma withdrawal_alone_keeps_collateral_bound:
  assumes ids: "distinct (map warehouseOid (warehouses (database srv)))"
      and wh: "warehouseById wid (warehouses (database srv)) = Some w"
      and bound: "collateralAvailable w \<le> collateral w"
  shows "\<exists>w'. warehouseById wid
                (warehouses (database (snd (deleteWarehouseAssets e s wid r srv)))) = Some w'
              \<and> collateral w' = collateral w
              \<and> collateralAvailable w' \<le> collateral w'
              \<and> (fst (deleteWarehouseAssets e s wid r srv) = Success \<longrightarrow>
                   collateralAvailable w' =
                     collateralAvailable w +
                     min (returned (validateAssets (dateNow e) (priceSource e) (appState srv)
                                      (reqAssets r) False))
                         (collateral w - collateralAvailable w))"
proof -
  let ?v = "returned (validateAssets (dateNow e) (priceSource e) (appState srv) (reqAssets r) False)"
  let ?after = "database (snd (deleteWarehouseAssets e s wid r srv))"
  have commit: "warehouseById wid (warehouses d') =
                  Some (applyToWarehouse
                          \<lparr>incCollateralAvailable = Some (collateralToReturn w ?v),
                           incAssetsBy = negated (amounts (reqAssets r))\<rparr> w)"
    if "assignedToWarehouse False s wid (warehouses (database srv)) = Inr reqWarehouse"
      and "withdrawCallback wid r (collateralToReturn reqWarehouse ?v) (database srv)
             = (flags, Some d')"
    for reqWarehouse flags d'
  proof -
    from assignedToWarehouse_found [OF ids that(1)] wh have "reqWarehouse = w" by simp
    with withdrawal_commit_warehouse [OF ids wh] that(2) show ?thesis by simp
  qed
  show ?thesis
  proof (cases "fst (deleteWarehouseAssets e s wid r srv) = Success")
    case True
    from deleteWarehouseAssets_success [OF True] commit
    have "warehouseById wid (warehouses ?after) =
            Some (applyToWarehouse
                    \<lparr>incCollateralAvailable = Some (collateralToReturn w ?v),
                     incAssetsBy = negated (amounts (reqAssets r))\<rparr> w)"
      by auto
    with bound show ?thesis
      by (simp add: applyToWarehouse_fields collateralToReturn_min)
  next
    case False
    from deleteWarehouseAssets_database [of e s wid r srv]
    have "warehouseById wid (warehouses ?after) = Some w
        \<or> warehouseById wid (warehouses ?after) =
            Some (applyToWarehouse
                    \<lparr>incCollateralAvailable = Some (collateralToReturn w ?v),
                     incAssetsBy = negated (amounts (reqAssets r))\<rparr> w)"
      using wh commit by auto
    with bound False show ?thesis
      by (auto simp: applyToWarehouse_fields collateralToReturn_min)
  qed
qed


lemma applyToWallet_stray:
  "walletCollateralAvailable
     (applyToWallet \<lparr>incCollateralAvailable = Some c, incAssetsBy = xs\<rparr> w)
     = Some (strayCollateral w + c)"
  by (simp add: applyToWallet_def strayCollateral_def split: option.splits)

lemma depositCallback_commit:
  assumes "depositCallback wid r needed d = (flags, Some d')"
  shows "find (\<lambda>w. username w = Some (party r)) (wallets d) \<noteq> None
       \<and> wallets d' =
           updateFirst (\<lambda>w. username w = Some (party r))
             (applyToWallet \<lparr>incCollateralAvailable = Some (- needed),
                             incAssetsBy = amounts (reqAssets r)\<rparr>)
             (wallets d)"
  using assms by (auto simp: depositCallback_def Let_def split: if_splits)

lemma postWarehouseAssets_success:
  assumes "fst (postWarehouseAssets e s wid r srv) = Success"
  shows "\<exists>flags d'.
         depositCallback wid r
            (returned (validateAssets (dateNow e) (priceSource e) (appState srv)
                         (reqAssets r) False))
            (database srv) = (flags, Some d')
       \<and> database (snd (postWarehouseAssets e s wid r srv)) = d'"
  using assms
  by (auto simp: postWarehouseAssets_def Let_def withTransaction_def depositCallback_def
           dest: assignedToWarehouse_error
           split: sum.splits prod.splits option.splits if_splits)

text \<open>The first document a filter matches, looked up by its identifier after the update.\<close>

lemma walletById_updateFirst:
  assumes "distinct (map walletOid ws)" and "find P ws = Some w"
  shows "walletById (walletOid w) (updateFirst P (applyToWallet u) ws) = Some (applyToWallet u w)"
  using find_id_updateFirst [OF assms(1), of "applyToWallet u" "walletOid w" P] assms(2)
  by (simp add: walletById_def applyToWallet_oid)

text \<open>
  Claim C10. A successful deposit leaves the depositor's wallet document with a
  \<open>collateralAvailable\<close> field lowered by the collateral computed for the deposit (from
  0 when the field was absent), next to the deposited assets; a successful withdrawal
  raises that field of the withdrawer's wallet by the clamped collateral returned, next to
  the assets taken out. In both routes the wallet is updated with the very update
  document built for the warehouse.
\<close>

theorem wallet_collateral_field:
  assumes ids: "distinct (map walletOid (wallets (database srv)))"
  shows "(fst (postWarehouseAssets e s wid r srv) = Success \<longrightarrow>
            (\<exists>w w'. find (\<lambda>x. username x = Some (party r)) (wallets (database srv)) = Some w
                  \<and> walletById (walletOid w)
                       (wallets (database (snd (postWarehouseAssets e s wid r srv)))) = Some w'
                  \<and> walletCollateralAvailable w' =
                       Some (strayCollateral w
                             - returned (validateAssets (dateNow e) (priceSource e)
                                           (appState srv) (reqAssets r) False))
                  \<and> walletAssets w' = incAssets (amounts (reqAssets r)) (walletAssets w)))
       \<and> (fst (deleteWarehouseAssets e s wid r srv) = Success \<longrightarrow>
            (\<exists>reqWarehouse w w'.
                  assignedToWarehouse False s wid (warehouses (database srv)) = Inr reqWarehouse
                  \<and> find (\<lambda>x. gteAssets (amounts (reqAssets r)) (walletAssets x)
                                  \<and> username x = Some (party r)) (wallets (database srv)) = Some w
                  \<and> walletById (walletOid w)
                       (wallets (database (snd (deleteWarehouseAssets e s wid r srv)))) = Some w'
                  \<and> walletCollateralAvailable w' =
                       Some (strayCollateral w
                             + collateralToReturn reqWarehouse
                                 (returned (validateAssets (dateNow e) (priceSource e)
                                              (appState srv) (reqAssets r) False)))
                  \<and> walletAssets w' =
                       incAssets (negated (amounts (reqAssets r))) (walletAssets w)))"
proof (intro conjI impI)
  assume ok: "fst (postWarehouseAssets e s wid r srv) = Success"
  let ?v = "returned (validateAssets (dateNow e) (priceSource e) (appState srv) (reqAssets r) False)"
  let ?u = "\<lparr>incCollateralAvailable = Some (- ?v), incAssetsBy = amounts (reqAssets r)\<rparr>"
  from postWarehouseAssets_success [OF ok] obtain flags d' where
    cb: "depositCallback wid r ?v (database srv) = (flags, Some d')"
    and after: "database (snd (postWarehouseAssets e s wid r srv)) = d'"
    by blast
  from depositCallback_commit [OF cb] obtain w where
    w: "find (\<lambda>x. username x = Some (party r)) (wallets (database srv)) = Some w"
    and ws: "wallets d' = updateFirst (\<lambda>x. username x = Some (party r)) (applyToWallet ?u)
                            (wallets (database srv))"
    by auto
  have "walletById (walletOid w) (wallets d') = Some (applyToWallet ?u w)"
    unfolding ws by (rule walletById_updateFirst [OF ids w])
  with w after show "\<exists>w w'. find (\<lambda>x. username x = Some (party r)) (wallets (database srv)) = Some w
                  \<and> walletById (walletOid w)
                       (wallets (database (snd (postWarehouseAssets e s wid r srv)))) = Some w'
                  \<and> walletCollateralAvailable w' = Some (strayCollateral w - ?v)
                  \<and> walletAssets w' = incAssets (amounts (reqAssets r)) (walletAssets w)"
    by (auto simp: applyToWallet_stray applyToWallet_assets)
next
  assume ok: "fst (deleteWarehouseAssets e s wid r srv) = Success"
  let ?v = "returned (validateAssets (dateNow e) (priceSource e) (appState srv) (reqAssets r) False)"
  let ?P = "\<lambda>x. gteAssets (amounts (reqAssets r)) (walletAssets x) \<and> username x = Some (party r)"
  from deleteWarehouseAssets_success [OF ok] obtain reqWarehouse flags d' where
    mw: "assignedToWarehouse False s wid (warehouses (database srv)) = Inr reqWarehouse"
    and cb: "withdrawCallback wid r (collateralToReturn reqWarehouse ?v) (database srv)
               = (flags, Some d')"
    and after: "database (snd (deleteWarehouseAssets e s wid r srv)) = d'"
    by blast
  let ?u = "\<lparr>incCollateralAvailable = Some (collateralToReturn reqWarehouse ?v),
             incAssetsBy = negated (amounts (reqAssets r))\<rparr>"
  from withdrawCallback_commit [OF cb] obtain w where
    w: "find ?P (wallets (database srv)) = Some w"
    and ws: "wallets d' = updateFirst ?P (applyToWallet ?u) (wallets (database srv))"
    by auto
  have "walletById (walletOid w) (wallets d') = Some (applyToWallet ?u w)"
    unfolding ws by (rule walletById_updateFirst [OF ids w])
  with w mw after show "\<exists>reqWarehouse w w'.
                  assignedToWarehouse False s wid (warehouses (database srv)) = Inr reqWarehouse
                  \<and> find ?P (wallets (database srv)) = Some w
                  \<and> walletById (walletOid w)
                       (wallets (database (snd (deleteWarehouseAssets e s wid r srv)))) = Some w'
                  \<and> walletCollateralAvailable w' =
                       Some (strayCollateral w + collateralToReturn reqWarehouse ?v)
                  \<and> walletAssets w' =
                       incAssets (negated (amounts (reqAssets r))) (walletAssets w)"
    by (auto simp: applyToWallet_stray applyToWallet_assets)
qed


lemma depositedServer_database:
  "wallets (database depositedServer) =
     [carol\<lparr>walletAssets := [''wood'' \<mapsto> 10], walletCollateralAvailable := Some (- 10)\<rparr>]"
  "warehouses (database depositedServer) =
     [warehouseA, warehouseB\<lparr>collateralAvailable := 0, warehouseAssets := [''wood'' \<mapsto> 10]\<rparr>]"
  "appState depositedServer = appState tradeServer"
  by (simp_all add: depositedServer_def trade_examples handler_defs fun_eq_iff)

lemma withdrawal_example:
  "returned (validateAssets (dateNow envLate) (priceSource envLate) (appState depositedServer)
              (reqAssets woodRequest) False) = 200"
  "fst (deleteWarehouseAssets envLate sessionB 2 woodRequest depositedServer) = Success"
  by (simp_all add: depositedServer_database trade_examples handler_defs)

text \<open>
  Withdrawing the ten wood alone, valued at 200 by then, gives warehouse 2 its 10 of
  collateral back and no more.
\<close>

lemma withdrawal_alone_example:
  "fst (deleteWarehouseAssets envLate sessionB 2 woodRequest depositedServer) = Success
   \<and> (\<exists>w'. warehouseById 2
               (warehouses (database (snd (deleteWarehouseAssets envLate sessionB 2 woodRequest
                                             depositedServer)))) = Some w'
             \<and> collateral w' = 10 \<and> collateralAvailable w' = 10)"
proof -
  let ?w = "warehouseB\<lparr>collateralAvailable := 0, warehouseAssets := [''wood'' \<mapsto> 10]\<rparr>"
  have 1: "distinct (map warehouseOid (warehouses (database depositedServer)))"
    by (simp add: depositedServer_database warehouseA_def warehouseB_def)
  have 2: "warehouseById 2 (warehouses (database depositedServer)) = Some ?w"
    by (simp add: depositedServer_database warehouseById_def warehouseA_def warehouseB_def)
  have 3: "collateralAvailable ?w \<le> collateral ?w" by (simp add: warehouseB_def)
  from withdrawal_alone_keeps_collateral_bound [OF 1 2 3, of envLate sessionB woodRequest]
    withdrawal_example
  show ?thesis by (auto simp: warehouseB_def)
qed

text \<open>
  Claim C6 at a failing input. Warehouse 2 of \<open>depositedServer\<close> has 10 collateral, none
  of it available, and holds the ten wood of carol; wood is worth 20 by now. Two requests
  to withdraw five wood each overlap: the middleware of both reads the warehouse with
  nothing available, so the handler of each cuts the 100 it would return down to 10. The
  first withdrawal leaves the warehouse within the bound, at 10 of 10; the second starts
  from there and adds its 10 as well, since the transaction filters on the assets only
  and takes the amount computed from what the middleware read. The warehouse ends with
  20 available against 10 of collateral. The same two requests one after the other end
  at 10 of 10.
\<close>

theorem overlapping_withdrawals_break_collateral_bound:
  "list_all collateralBound (warehouses (database depositedServer))
   \<and> map summary (warehouses (database depositedServer)) = [(1, 1000, 1000, 0), (2, 10, 0, 10)]
   \<and> fst (deleteWarehouseAssets envLate sessionB 2 halfWoodRequest depositedServer) = Success
   \<and> map summary (warehouses (database (snd
         (deleteWarehouseAssets envLate sessionB 2 halfWoodRequest depositedServer))))
       = [(1, 1000, 1000, 0), (2, 10, 10, 5)]
   \<and> fst (overlappingWithdrawals envLate sessionB 2 halfWoodRequest halfWoodRequest
           depositedServer) = (Success, Success)
   \<and> map summary (warehouses (database (snd
         (overlappingWithdrawals envLate sessionB 2 halfWoodRequest halfWoodRequest
            depositedServer))))
       = [(1, 1000, 1000, 0), (2, 10, 20, 0)]
   \<and> \<not> list_all collateralBound (warehouses (database (snd
         (overlappingWithdrawals envLate sessionB 2 halfWoodRequest halfWoodRequest
            depositedServer))))
   \<and> map summary (warehouses (database
         (run [(envLate, Withdraw sessionB 2 halfWoodRequest),
               (envLate, Withdraw sessionB 2 halfWoodRequest)] depositedServer)))
       = [(1, 1000, 1000, 0), (2, 10, 10, 0)]"
  by (simp add: overlappingWithdrawals_def halfWoodRequest_def summary_def balance_def
        collateralBound_def depositedServer_def trade_examples handler_defs)

theorem wallet_collateral_field_witness:
  "(\<exists>w'. walletById 5 (wallets (database (snd (postWarehouseAssets envEarly sessionB 2 woodRequest
                                                tradeServer)))) = Some w'
         \<and> walletCollateralAvailable w' = Some (- 10))
   \<and> (\<exists>w'. walletById 5 (wallets (database (snd (deleteWarehouseAssets envLate sessionB 2
                                                    woodRequest depositedServer)))) = Some w'
         \<and> walletCollateralAvailable w' = Some 0)"
proof -
  have ids: "distinct (map walletOid (wallets (database tradeServer)))"
    by (simp add: trade_examples)
  have ok: "fst (postWarehouseAssets envEarly sessionB 2 woodRequest tradeServer) = Success"
    by (simp add: trade_examples handler_defs)
  have v: "returned (validateAssets (dateNow envEarly) (priceSource envEarly) (appState tradeServer)
              (reqAssets woodRequest) False) = 10"
    by (simp add: trade_examples handler_defs)
  have f: "find (\<lambda>x. username x = Some (party woodRequest)) (wallets (database tradeServer))
             = Some carol"
    by (simp add: trade_examples)
  from wallet_collateral_field [OF ids, of envEarly sessionB 2 woodRequest] ok v f
  have deposit: "\<exists>w'. walletById 5 (wallets (database (snd (postWarehouseAssets envEarly sessionB 2
                                                woodRequest tradeServer)))) = Some w'
         \<and> walletCollateralAvailable w' = Some (- 10)"
    by (auto simp: carol_def strayCollateral_def)
  let ?c = "carol\<lparr>walletAssets := [''wood'' \<mapsto> 10], walletCollateralAvailable := Some (- 10)\<rparr>"
  have ids': "distinct (map walletOid (wallets (database depositedServer)))"
    by (simp add: depositedServer_database carol_def)
  have f': "find (\<lambda>x. gteAssets (amounts (reqAssets woodRequest)) (walletAssets x)
                        \<and> username x = Some (party woodRequest))
              (wallets (database depositedServer)) = Some ?c"
    by (simp add: depositedServer_database carol_def woodRequest_def gteAssets_def amounts_def)
  have mw: "assignedToWarehouse False sessionB 2 (warehouses (database depositedServer))
              = Inr (warehouseB\<lparr>collateralAvailable := 0, warehouseAssets := [''wood'' \<mapsto> 10]\<rparr>)"
    by (simp add: depositedServer_database assignedToWarehouse_def assignedQuery_def
          warehouseA_def warehouseB_def sessionB_def)
  from wallet_collateral_field [OF ids', of envLate sessionB 2 woodRequest] withdrawal_example f' mw
  have withdrawal: "\<exists>w'. walletById 5 (wallets (database (snd (deleteWarehouseAssets envLate sessionB 2
                                                    woodRequest depositedServer)))) = Some w'
         \<and> walletCollateralAvailable w' = Some 0"
    by (auto simp: carol_def strayCollateral_def collateralToReturn_def warehouseB_def)
  from deposit withdrawal show ?thesis by simp
qed

section \<open>Where the collateral bound is kept\<close>

lemma list_all_updateFirst:
  assumes "list_all P xs" and "\<And>x. x \<in> set xs \<Longrightarrow> Q x \<Longrightarrow> P x \<Longrightarrow> P (f x)"
  shows "list_all P (updateFirst Q f xs)"
  using assms by (induction xs) auto

lemma same_id_same_document:
  assumes "distinct (map oid xs)" and "x \<in> set xs" and "y \<in> set xs" and "oid x = oid y"
  shows "x = y"
  using assms by (meson distinct_map inj_on_def)

lemma postTransaction_warehouses:
  "warehouses (database (snd (postTransaction e s r srv))) = warehouses (database srv)"
  by (simp add: postTransaction_def Let_def split: prod.splits)

lemma putUser_warehouses:
  "warehouses (database (snd (putUser r srv))) = warehouses (database srv)"
  by (simp add: putUser_def Let_def split: prod.splits sum.splits)

lemma statusSent_warehouses:
  "warehouses (database (snd (putTransferStatus s tid StatusSent srv))) = warehouses (database srv)"
  by (auto simp: putTransferStatus_def sentCallback_def withTransaction_def Let_def
           split: prod.splits option.splits if_splits)

lemma patchCollateral_bound:
  assumes "list_all collateralBound (warehouses (database srv))"
  shows "list_all collateralBound (warehouses (database (snd (patchCollateral s wid bal srv))))"
proof -
  have up: "list_all collateralBound
              (updateFirst (\<lambda>w. warehouseOid w = wid) (incBothCollaterals bal)
                 (warehouses (database srv)))" if "0 \<le> bal"
    using assms that
    by (intro list_all_updateFirst) (auto simp: collateralBound_def incBothCollaterals_def)
  have down: "list_all collateralBound
              (updateFirst (\<lambda>w. warehouseOid w = wid \<and> \<bar>bal\<bar> \<le> collateralAvailable w)
                 (incBothCollaterals bal) (warehouses (database srv)))" if "bal < 0"
    using assms that
    by (intro list_all_updateFirst) (auto simp: collateralBound_def incBothCollaterals_def)
  show ?thesis
    using assms up down
    by (auto simp: patchCollateral_def collateralCallback_def withTransaction_def Let_def
             split: sum.splits prod.splits option.splits if_splits)
qed


lemma postWarehouseAssets_bound:
  assumes "list_all collateralBound (warehouses (database srv))"
  shows "list_all collateralBound (warehouses (database (snd (postWarehouseAssets e s wid r srv))))"
proof -
  have up: "list_all collateralBound
              (updateFirst (\<lambda>w. warehouseOid w = wid \<and> needed \<le> collateralAvailable w)
                 (applyToWarehouse \<lparr>incCollateralAvailable = Some (- needed), incAssetsBy = xs\<rparr>)
                 (warehouses (database srv)))" if "0 \<le> needed" for needed xs
    using assms that
    by (intro list_all_updateFirst) (auto simp: collateralBound_def applyToWarehouse_fields)
  show ?thesis
    using assms up
    by (auto simp: postWarehouseAssets_def depositCallback_def withTransaction_def Let_def
             split: sum.splits prod.splits option.splits if_splits)
qed

lemma deleteWarehouseAssets_bound:
  assumes ids: "distinct (map warehouseOid (warehouses (database srv)))"
      and bound: "list_all collateralBound (warehouses (database srv))"
  shows "list_all collateralBound (warehouses (database (snd (deleteWarehouseAssets e s wid r srv))))"
proof -
  let ?whs = "warehouses (database srv)"
  have up: "list_all collateralBound
              (updateFirst (\<lambda>w. warehouseOid w = wid \<and> gteAssets conds (warehouseAssets w))
                 (applyToWarehouse \<lparr>incCollateralAvailable = Some (collateralToReturn reqWarehouse v),
                                    incAssetsBy = xs\<rparr>) ?whs)"
    if mw: "assignedToWarehouse False s wid ?whs = Inr reqWarehouse" and v: "0 \<le> v"
    for reqWarehouse v conds xs
  proof (intro list_all_updateFirst bound)
    fix x
    assume x: "x \<in> set ?whs" "warehouseOid x = wid \<and> gteAssets conds (warehouseAssets x)"
      "collateralBound x"
    from assignedToWarehouse_found [OF ids mw] have "reqWarehouse \<in> set ?whs"
      "warehouseOid reqWarehouse = wid"
      using find_in_set [of "\<lambda>w. warehouseOid w = wid" ?whs reqWarehouse]
      by (simp_all add: warehouseById_def)
    with same_id_same_document [OF ids x(1), of reqWarehouse] x(2) have "x = reqWarehouse" by simp
    with x(3) v show "collateralBound
            (applyToWarehouse \<lparr>incCollateralAvailable = Some (collateralToReturn reqWarehouse v),
                               incAssetsBy = xs\<rparr> x)"
      by (auto simp: collateralBound_def applyToWarehouse_fields collateralToReturn_min)
  qed
  show ?thesis
    using bound up
    by (auto simp: deleteWarehouseAssets_def withdrawHandler_def withdrawCallback_def withTransaction_def Let_def
             split: sum.splits prod.splits option.splits if_splits)
qed

lemma postTransfer_bound:
  assumes "list_all collateralBound (warehouses (database srv))"
  shows "list_all collateralBound (warehouses (database (snd (postTransfer e s r srv))))"
proof -
  have lock: "list_all collateralBound
              (updateFirst (\<lambda>w. warehouseOid w = i \<and> needed \<le> collateralAvailable w)
                 (\<lambda>w. w\<lparr>collateralAvailable := collateralAvailable w - needed\<rparr>)
                 (warehouses (database srv)))" if "0 \<le> needed" for needed i
    using assms that
    by (intro list_all_updateFirst) (auto simp: collateralBound_def)
  have take: "list_all collateralBound
              (updateFirst P (applyToWarehouse \<lparr>incCollateralAvailable = None, incAssetsBy = xs\<rparr>) whs)"
    if "list_all collateralBound whs" for P xs whs
    using that
    by (intro list_all_updateFirst) (auto simp: collateralBound_def applyToWarehouse_fields)
  show ?thesis
    using assms lock take
    by (auto simp: postTransfer_def createCallback_def withTransaction_def Let_def
             split: sum.splits prod.splits option.splits if_splits)
qed

text \<open>
  Every request other than the cancellation and the confirmation of a transfer, run with
  no other request overlapping it, keeps the collateral bound on every warehouse (as far
  as the model follows the request: one it marks \<open>OutsideModel\<close> is counted with the
  database it found).
\<close>

lemma bound_kept_outside_transfer_release:
  assumes "distinct (map warehouseOid (warehouses (database srv)))"
      and "list_all collateralBound (warehouses (database srv))"
      and "\<not> releasesTransferCollateral op"
  shows "list_all collateralBound (warehouses (database (snd (perform e op srv))))"
proof (cases op)
  case (PeerTransaction s r)
  with assms(2) show ?thesis by (simp add: postTransaction_warehouses)
next
  case (AdjustCollateral s wid bal)
  with assms(2) show ?thesis by (simp add: patchCollateral_bound)
next
  case (Deposit s wid r)
  with assms(2) show ?thesis by (simp add: postWarehouseAssets_bound)
next
  case (Withdraw s wid r)
  with assms(1,2) show ?thesis by (simp add: deleteWarehouseAssets_bound)
next
  case (CreateTransfer s r)
  with assms(2) show ?thesis by (simp add: postTransfer_bound)
next
  case (CancelTransfer s tid)
  with assms(3) show ?thesis by simp
next
  case (UpdateStatus s tid body)
  with assms(3) have "body = StatusSent" by (cases body) simp_all
  with UpdateStatus assms(2) show ?thesis by (simp add: statusSent_warehouses)
next
  case (ApproveUser r)
  with assms(2) show ?thesis by (simp add: putUser_warehouses)
qed

text \<open>No request changes the identifiers of the warehouses or their order.\<close>

lemma perform_warehouse_ids:
  "map warehouseOid (warehouses (database (snd (perform e op srv))))
     = map warehouseOid (warehouses (database srv))"
proof (cases op)
  case (PeerTransaction s r)
  then show ?thesis by (simp add: postTransaction_warehouses)
next
  case (AdjustCollateral s wid bal)
  then show ?thesis
    by (auto simp: patchCollateral_def collateralCallback_def withTransaction_def Let_def
          map_updateFirst incBothCollaterals_def
          split: sum.splits prod.splits option.splits if_splits)
next
  case (Deposit s wid r)
  then show ?thesis
    by (auto simp: postWarehouseAssets_def depositCallback_def withTransaction_def Let_def
          map_updateFirst applyToWarehouse_fields
          split: sum.splits prod.splits option.splits if_splits)
next
  case (Withdraw s wid r)
  then show ?thesis
    by (auto simp: deleteWarehouseAssets_def withdrawHandler_def withdrawCallback_def withTransaction_def Let_def
          map_updateFirst applyToWarehouse_fields
          split: sum.splits prod.splits option.splits if_splits)
next
  case (CreateTransfer s r)
  then show ?thesis
    by (auto simp: postTransfer_def createCallback_def withTransaction_def Let_def
          map_updateFirst applyToWarehouse_fields
          split: sum.splits prod.splits option.splits if_splits)
next
  case (CancelTransfer s tid)
  then show ?thesis
    by (auto simp: deleteTransfer_def cancelCallback_def withTransaction_def Let_def
          map_updateFirst returnAssets_fields returnCollateral_fields
          split: prod.splits option.splits if_splits)
next
  case (UpdateStatus s tid body)
  then show ?thesis
    by (cases body)
       (auto simp: putTransferStatus_def sentCallback_def receivedCallback_def
          withTransaction_def Let_def map_updateFirst returnAssets_fields
          returnCollateral_fields
          split: prod.splits option.splits if_splits)
next
  case (ApproveUser r)
  then show ?thesis by (simp add: putUser_warehouses)
qed

text \<open>
  So requests run one after the other, without a cancellation or a confirmation of a
  transfer among them, keep the collateral bound on every warehouse.
\<close>

lemma bound_kept_by_sequences:
  assumes "distinct (map warehouseOid (warehouses (database srv)))"
      and "list_all collateralBound (warehouses (database srv))"
      and "list_all (\<lambda>(e, op). \<not> releasesTransferCollateral op) ops"
  shows "list_all collateralBound (warehouses (database (run ops srv)))"
  using assms
proof (induction ops arbitrary: srv)
  case Nil
  then show ?case by simp
next
  case (Cons p ops)
  obtain e op where p: "p = (e, op)" by (cases p)
  from Cons.prems(3) p have op: "\<not> releasesTransferCollateral op"
    and rest: "list_all (\<lambda>(e, op). \<not> releasesTransferCollateral op) ops"
    by simp_all
  have ids: "distinct (map warehouseOid (warehouses (database (snd (perform e op srv)))))"
    using Cons.prems(1) by (simp add: perform_warehouse_ids)
  have bound: "list_all collateralBound (warehouses (database (snd (perform e op srv))))"
    by (rule bound_kept_outside_transfer_release [OF Cons.prems(1,2) op])
  from Cons.IH [OF ids bound rest] p show ?case by simp
qed

end
